theory Spec2Isabelle
  imports Main
begin

section \<open>Session description synthesis (createSdpString)\<close>

text \<open>
  The synthesizer reads the local port of each plain transport and the first codec of each
  consumer's RTP parameters. Numbers are rendered in decimal, as a template literal does
  for a non-negative integer. A codec's \<open>channels\<close> and \<open>parameters\<close> are optional in
  mediasoup's RtpCodecParameters, hence \<open>option\<close>; the parameter object is the list of its
  own keys in the order \<open>Object.keys\<close> enumerates them.
\<close>

datatype error = TypeError

datatype param_value = PNum nat | PStr string

record rtp_codec =
  mimeType :: string
  payloadType :: nat
  clockRate :: nat
  channels :: "nat option"
  parameters :: "(string \<times> param_value) list option"

record transport_tuple =
  localIp :: string
  localPort :: nat

record plain_transport =
  transport_id :: nat
  tuple :: transport_tuple

record consumer =
  consumer_id :: nat
  codecs :: "rtp_codec list"

definition digit :: "nat \<Rightarrow> char" where
  "digit d = ''0123456789'' ! d"

fun show_nat :: "nat \<Rightarrow> string" where
  "show_nat n =
     (if n < 10 then [digit n]
      else show_nat (n div 10) @ [digit (n mod 10)])"

declare show_nat.simps [simp del]

fun show_value :: "param_value \<Rightarrow> string" where
  "show_value (PNum n) = show_nat n"
| "show_value (PStr s) = s"

text \<open>\<open>s.split(c)\<close> for a one-character separator: never empty, \<open>"".split(c) = [""]\<close>.\<close>

fun split_on :: "char \<Rightarrow> string \<Rightarrow> string list" where
  "split_on c [] = [[]]"
| "split_on c (x # xs) =
     (if x = c then [] # split_on c xs
      else (case split_on c xs of
              [] \<Rightarrow> [[x]]
            | w # ws \<Rightarrow> (x # w) # ws))"

text \<open>\<open>xs[i]\<close> is \<open>undefined\<close> out of range, and a template literal prints that word.\<close>

fun index_opt :: "'a list \<Rightarrow> nat \<Rightarrow> 'a option" where
  "index_opt [] i = None"
| "index_opt (x # xs) 0 = Some x"
| "index_opt (x # xs) (Suc i) = index_opt xs i"

definition show_opt :: "string option \<Rightarrow> string" where
  "show_opt v = (case v of None \<Rightarrow> ''undefined'' | Some s \<Rightarrow> s)"

text \<open>\<open>xs.join(sep)\<close>.\<close>

fun join :: "string \<Rightarrow> string list \<Rightarrow> string" where
  "join sep [] = []"
| "join sep [x] = x"
| "join sep (x # y # ys) = x @ sep @ join sep (y # ys)"

definition crlf :: string where
  "crlf = [CHR 0x0D, CHR 0x0A]"

text \<open>
  formatParams (WatchPage.tsx 725-730): the empty string for a missing or empty object,
  otherwise \<open>key=value\<close> pairs joined by semicolons.
\<close>

definition formatParams :: "(string \<times> param_value) list option \<Rightarrow> string" where
  "formatParams params =
     (case params of
        None \<Rightarrow> []
      | Some kvs \<Rightarrow>
          (if length kvs = 0 then []
           else join '';'' (map (\<lambda>(k, v). k @ ''='' @ show_value v) kvs)))"

text \<open>\<open>codec.mimeType.split("/")[1]\<close> inside a template literal.\<close>

definition codec_name :: "rtp_codec \<Rightarrow> string" where
  "codec_name c = show_opt (index_opt (split_on CHR ''/'' (mimeType c)) 1)"

text \<open>\<open>audioCodec.channels || 2\<close>: an absent count and the count 0 are both falsy.\<close>

definition channels_or_2 :: "rtp_codec \<Rightarrow> nat" where
  "channels_or_2 c = (case channels c of None \<Rightarrow> 2 | Some n \<Rightarrow> if n = 0 then 2 else n)"

definition fmtp_line :: "rtp_codec \<Rightarrow> string list" where
  "fmtp_line c =
     (let ps = formatParams (parameters c) in
      if ps = [] then []
      else [''a=fmtp:'' @ show_nat (payloadType c) @ '' '' @ ps])"

definition video_lines :: "nat \<Rightarrow> rtp_codec \<Rightarrow> string list" where
  "video_lines port c =
     [''m=video '' @ show_nat port @ '' RTP/AVP '' @ show_nat (payloadType c),
      ''a=rtpmap:'' @ show_nat (payloadType c) @ '' '' @ codec_name c @ ''/''
         @ show_nat (clockRate c)]
     @ fmtp_line c @ [''a=sendonly'']"

definition audio_lines :: "nat \<Rightarrow> rtp_codec \<Rightarrow> string list" where
  "audio_lines port c =
     [''m=audio '' @ show_nat port @ '' RTP/AVP '' @ show_nat (payloadType c),
      ''a=rtpmap:'' @ show_nat (payloadType c) @ '' '' @ codec_name c @ ''/''
         @ show_nat (clockRate c) @ ''/'' @ show_nat (channels_or_2 c)]
     @ fmtp_line c @ [''a=sendonly'']"

definition session_header :: "string list" where
  "session_header =
     [''v=0'', ''o=- 0 0 IN IP4 127.0.0.1'', ''s=Mediasoup Stream'',
      ''c=IN IP4 127.0.0.1'', ''t=0 0'']"

text \<open>The array \<open>sdpLines\<close> as it stands at line 771, given the two first codecs.\<close>

definition sdpLines :: "nat \<Rightarrow> rtp_codec \<Rightarrow> nat \<Rightarrow> rtp_codec \<Rightarrow> string list" where
  "sdpLines vport vc aport ac = session_header @ video_lines vport vc @ audio_lines aport ac"

text \<open>
  createSdpString (WatchPage.tsx 709-772). \<open>codecs[0]\<close> of an empty codec list is
  \<open>undefined\<close>, and reading \<open>payloadType\<close> from it raises a TypeError (line 722 for the
  video codec, 723 for the audio codec).
\<close>

definition createSdpString ::
  "plain_transport \<Rightarrow> plain_transport \<Rightarrow> consumer \<Rightarrow> consumer \<Rightarrow> error + string" where
  "createSdpString vTransport aTransport vConsumer aConsumer =
     (case index_opt (codecs vConsumer) 0 of
        None \<Rightarrow> Inl TypeError
      | Some videoCodec \<Rightarrow>
          (case index_opt (codecs aConsumer) 0 of
             None \<Rightarrow> Inl TypeError
           | Some audioCodec \<Rightarrow>
               Inr (join crlf
                      (sdpLines (localPort (tuple vTransport)) videoCodec
                                (localPort (tuple aTransport)) audioCodec)
                    @ crlf)))"

section \<open>The converter module (stopHlsConverter, startRtpToHlsConverter)\<close>

text \<open>
  Node runs one handler at a time; a handler gives way only where it awaits something that a
  later turn of the event loop completes: a timer, a request to the mediasoup worker, or a
  promise that itself waits for one of those. The model takes those suspension points as
  its step boundaries. An \<open>await\<close> of a value that is already available (the \<open>close()\<close>
  calls in stopHlsConverter, a stopConverter that returns at once) resumes in the same
  turn, before any timer or I/O callback, so it does not end a step.

  Producers, promises, timers, transports and consumers are identified by numbers; fresh
  ones come from \<open>next_id\<close>. A subprocess is its index in \<open>procs\<close>.
\<close>

datatype kind = Video | Audio

datatype proc_status = Alive | Terminating | Exited

text \<open>Where an in-flight start is suspended (WatchPage.tsx line numbers).\<close>

datatype start_pc =
    PortReleaseDelay        \<comment> \<open>168: the 3000 ms timer of startConverterInternal\<close>
  | CleanupDelay            \<comment> \<open>591: the 1000 ms timer of startRtpToHlsConverter\<close>
  | VideoTransportPending   \<comment> \<open>618: createPlainTransport for video\<close>
  | AudioTransportPending   \<comment> \<open>629: createPlainTransport for audio\<close>
  | VideoConsumerPending    \<comment> \<open>651: consume for video\<close>
  | AudioConsumerPending    \<comment> \<open>657: consume for audio\<close>

text \<open>
  How the awaited operation ends. \<open>Rejected\<close>: the awaited promise rejects. \<open>Thrown\<close>: it
  resolves, and a synchronous statement that follows before the next await throws
  (mkdirSync at 595; createSdpString, writeFileSync or spawn at 671-688).
\<close>

datatype outcome = Resolved | Rejected | Thrown

text \<open>
  Who invoked tryStartConverter: the callback of the debounce timer (118-120), which drops
  the returned promise, or restartConverter (224), which awaits it.
\<close>

datatype caller = ByTimer | ByRestart

text \<open>What the caller of stopConverter does once stopConverter has returned.\<close>

datatype after_stop =
    ThenNothing               \<comment> \<open>transportclose handler, reset, shutdown\<close>
  | ThenSetProducer kind nat  \<comment> \<open>setProducer, lines 93-120\<close>
  | ThenRestartDelay          \<comment> \<open>restartConverter, line 223\<close>

text \<open>
  A continuation suspended on the in-flight start promise: a stopConverter at line 204, or
  a tryStartConverter that returned the promise itself at line 137.
\<close>

datatype waiter = Stopping after_stop | Joined caller

text \<open>Calls the HLS manager makes into the converter module: 170, and 181 or 212.\<close>

datatype sup_call = SupStart | SupStop

text \<open>
  An in-flight start: the promise stored at line 143, where it is suspended, the two
  producers passed at 172-173 (read from the manager when the 3000 ms have elapsed, null if
  the slot has been cleared meanwhile), and the locals of startRtpToHlsConverter that are
  not yet stored in the module's variables.
\<close>

record start_task =
  promise :: nat
  pc :: start_pc
  arg_video :: "nat option"
  arg_audio :: "nat option"
  local_videoTransport :: "nat option"
  local_videoConsumer :: "nat option"

text \<open>
  The state. First the five fields of the manager (63-67) and the five handles of the
  converter module (563-578). Then what the runtime holds: the pending debounce timers, the
  pending 2000 ms waits of restartConverter, the registered transportclose listeners, the
  starts in flight, the continuations suspended on a start promise, and the subprocesses
  spawned so far. The last three fields only observe: the manager's calls into the
  converter module, the number of tryStartConverter invocations, and the number of
  rejected promises nobody handles.
\<close>

record state =
  isConverterRunning :: bool
  videoProducer :: "nat option"
  audioProducer :: "nat option"
  converterStartPromise :: "nat option"
  restartTimeout :: "nat option"
  ffmpegProcess :: "nat option"
  hlsTransports_video :: "nat option"
  hlsTransports_audio :: "nat option"
  hlsConsumers_video :: "nat option"
  hlsConsumers_audio :: "nat option"
  timers :: "nat list"
  restart_delays :: "nat list"
  listeners :: "(kind \<times> nat) list"
  starts :: "start_task list"
  waiters :: "(nat \<times> waiter) list"
  procs :: "proc_status list"
  next_id :: nat
  sup_log :: "sup_call list"
  tryStart_calls :: nat
  unhandled_rejections :: nat

definition init :: state where
  "init = \<lparr> isConverterRunning = False, videoProducer = None, audioProducer = None,
            converterStartPromise = None, restartTimeout = None, ffmpegProcess = None,
            hlsTransports_video = None, hlsTransports_audio = None,
            hlsConsumers_video = None, hlsConsumers_audio = None,
            timers = [], restart_delays = [], listeners = [], starts = [], waiters = [],
            procs = [], next_id = 0, sup_log = [], tryStart_calls = 0,
            unhandled_rejections = 0 \<rparr>"

text \<open>
  \<open>ffmpegProcess.kill()\<close>: sends SIGTERM and returns normally; the exit comes later, as an
  event of its own.
\<close>

definition kill :: "nat \<Rightarrow> state \<Rightarrow> state" where
  "kill p s =
     (if p < length (procs s) \<and> procs s ! p = Alive
      then s\<lparr>procs := (procs s)[p := Terminating]\<rparr> else s)"

text \<open>stopHlsConverter (870-897). \<open>close()\<close> of a transport or consumer returns normally.\<close>

definition stopHlsConverter :: "state \<Rightarrow> state" where
  "stopHlsConverter s =
     (let s1 = (case ffmpegProcess s of
                  None \<Rightarrow> s
                | Some p \<Rightarrow> (kill p s)\<lparr>ffmpegProcess := None\<rparr>);
          s2 = (case hlsTransports_video s1 of
                  None \<Rightarrow> s1 | Some t \<Rightarrow> s1\<lparr>hlsTransports_video := None\<rparr>);
          s3 = (case hlsTransports_audio s2 of
                  None \<Rightarrow> s2 | Some t \<Rightarrow> s2\<lparr>hlsTransports_audio := None\<rparr>);
          s4 = (case hlsConsumers_video s3 of
                  None \<Rightarrow> s3 | Some c \<Rightarrow> s3\<lparr>hlsConsumers_video := None\<rparr>)
      in (case hlsConsumers_audio s4 of
            None \<Rightarrow> s4 | Some c \<Rightarrow> s4\<lparr>hlsConsumers_audio := None\<rparr>))"

text \<open>
  One resumption of an in-flight start: from the await named by \<open>pc\<close> to the next await, to
  the return, or to the throw. The first case is the tail of startConverterInternal
  (170-174), which calls startRtpToHlsConverter; the others are inside it (580-707).
  A timer cannot reject, so the outcome is not read at \<open>PortReleaseDelay\<close>, and only
  \<open>Thrown\<close> matters at \<open>CleanupDelay\<close>. The catch block at 702-706 runs stopHlsConverter
  and rethrows; the throw of mkdirSync at 595 is outside the try block. Reading \<open>id\<close> from
  a null producer (652, 658) is a TypeError inside the try block. The timer armed at
  691-701 only resumes the two consumers and catches its own errors; it changes none of
  the variables and is left out.
\<close>

datatype start_result = Pending start_task state | Returned state | Threw state

definition catch_cleanup :: "state \<Rightarrow> start_result" where
  "catch_cleanup s = Threw (stopHlsConverter s)"

definition fresh :: "state \<Rightarrow> state" where
  "fresh s = s\<lparr>next_id := Suc (next_id s)\<rparr>"

definition runFfmpeg :: "state \<Rightarrow> state" where
  "runFfmpeg s = s\<lparr>ffmpegProcess := Some (length (procs s)), procs := procs s @ [Alive]\<rparr>"

definition start_step :: "start_task \<Rightarrow> outcome \<Rightarrow> state \<Rightarrow> start_result" where
  "start_step t out s =
     (case pc t of
        PortReleaseDelay \<Rightarrow>
          Pending (t\<lparr>pc := CleanupDelay, arg_video := videoProducer s,
                     arg_audio := audioProducer s\<rparr>)
                  (stopHlsConverter (s\<lparr>sup_log := sup_log s @ [SupStart]\<rparr>))
      | CleanupDelay \<Rightarrow>
          (if out = Thrown then Threw s
           else Pending (t\<lparr>pc := VideoTransportPending\<rparr>) s)
      | VideoTransportPending \<Rightarrow>
          (if out = Resolved
           then Pending (t\<lparr>pc := AudioTransportPending,
                           local_videoTransport := Some (next_id s)\<rparr>) (fresh s)
           else catch_cleanup s)
      | AudioTransportPending \<Rightarrow>
          (if out = Resolved
           then (let s1 = fresh (s\<lparr>hlsTransports_video := local_videoTransport t,
                                   hlsTransports_audio := Some (next_id s)\<rparr>)
                 in (case arg_video t of
                       None \<Rightarrow> catch_cleanup s1
                     | Some v \<Rightarrow> Pending (t\<lparr>pc := VideoConsumerPending\<rparr>) s1))
           else catch_cleanup s)
      | VideoConsumerPending \<Rightarrow>
          (if out = Resolved
           then (case arg_audio t of
                   None \<Rightarrow> catch_cleanup (fresh s)
                 | Some a \<Rightarrow> Pending (t\<lparr>pc := AudioConsumerPending,
                                         local_videoConsumer := Some (next_id s)\<rparr>)
                                     (fresh s))
           else catch_cleanup s)
      | AudioConsumerPending \<Rightarrow>
          (case out of
             Rejected \<Rightarrow> catch_cleanup s
           | Thrown \<Rightarrow>
               catch_cleanup (fresh (s\<lparr>hlsConsumers_video := local_videoConsumer t,
                                       hlsConsumers_audio := Some (next_id s)\<rparr>))
           | Resolved \<Rightarrow>
               Returned (runFfmpeg (fresh (s\<lparr>hlsConsumers_video := local_videoConsumer t,
                                              hlsConsumers_audio := Some (next_id s)\<rparr>)))))"

section \<open>The HLS manager (class HLSManager)\<close>

text \<open>Lines 83-86 and 196-199: cancel the timer the field refers to, if any.\<close>

definition clearRestartTimeout :: "state \<Rightarrow> state" where
  "clearRestartTimeout s =
     (case restartTimeout s of
        None \<Rightarrow> s
      | Some t \<Rightarrow> s\<lparr>timers := removeAll t (timers s), restartTimeout := None\<rparr>)"

text \<open>
  setProducer after the slot check (93 or 99, 103-115, 118-120): record the producer,
  register the transportclose listener, arm a new 500 ms timer. The field is overwritten
  without a \<open>clearTimeout\<close> here.
\<close>

definition setProducer_finish :: "kind \<Rightarrow> nat \<Rightarrow> state \<Rightarrow> state" where
  "setProducer_finish k p s =
     (let s1 = (case k of
                  Video \<Rightarrow> s\<lparr>videoProducer := Some p\<rparr>
                | Audio \<Rightarrow> s\<lparr>audioProducer := Some p\<rparr>);
          s2 = s1\<lparr>listeners := listeners s1 @ [(k, p)]\<rparr>
      in fresh (s2\<lparr>restartTimeout := Some (next_id s2),
                    timers := timers s2 @ [next_id s2]\<rparr>))"

fun run_after_stop :: "after_stop \<Rightarrow> state \<Rightarrow> state" where
  "run_after_stop ThenNothing s = s"
| "run_after_stop (ThenSetProducer k p) s = setProducer_finish k p s"
| "run_after_stop ThenRestartDelay s =
     fresh (s\<lparr>restart_delays := restart_delays s @ [next_id s]\<rparr>)"

text \<open>The manager's call of stopHlsConverter inside try/catch (180-184, 211-215).\<close>

definition stop_supervisor :: "state \<Rightarrow> state" where
  "stop_supervisor s = (stopHlsConverter s)\<lparr>sup_log := sup_log s @ [SupStop]\<rparr>"

text \<open>
  stopConverter (187-216), followed by what its caller does next. With a start in flight
  it suspends at line 204; \<open>stopConverter_resume\<close> is the rest, from line 208.
\<close>

definition stopConverter_resume :: "after_stop \<Rightarrow> state \<Rightarrow> state" where
  "stopConverter_resume k s =
     run_after_stop k (stop_supervisor (s\<lparr>converterStartPromise := None\<rparr>))"

definition stopConverter :: "after_stop \<Rightarrow> state \<Rightarrow> state" where
  "stopConverter k s =
     (if \<not> isConverterRunning s \<and> converterStartPromise s = None
      then run_after_stop k s
      else (let s1 = clearRestartTimeout (s\<lparr>isConverterRunning := False\<rparr>)
            in (case converterStartPromise s1 of
                  Some P \<Rightarrow> s1\<lparr>waiters := waiters s1 @ [(P, Stopping k)]\<rparr>
                | None \<Rightarrow> run_after_stop k (stop_supervisor s1))))"

text \<open>forceStopConverter (177-185).\<close>

definition forceStopConverter :: "state \<Rightarrow> state" where
  "forceStopConverter s = stop_supervisor (s\<lparr>isConverterRunning := False\<rparr>)"

text \<open>
  The settling of start promise \<open>P\<close>. Its reactions run in the order they were attached:
  first the tryStartConverter that created it (its await at 146 is attached in the same
  synchronous block as the creation at 143), lines 147-153; then every continuation
  suspended on it. A joined tryStartConverter passes the rejection to its own caller: the
  \<open>/hls-restart\<close> route catches it (478), the timer callback (118-120) drops the promise,
  which leaves the rejection unhandled.
\<close>

fun resume_waiter :: "bool \<Rightarrow> waiter \<Rightarrow> state \<Rightarrow> state" where
  "resume_waiter ok (Stopping k) s = stopConverter_resume k s"
| "resume_waiter ok (Joined c) s =
     (if ok \<or> c = ByRestart then s
      else s\<lparr>unhandled_rejections := Suc (unhandled_rejections s)\<rparr>)"

definition settle :: "nat \<Rightarrow> bool \<Rightarrow> state \<Rightarrow> state" where
  "settle P ok s =
     (let s1 = s\<lparr>starts := filter (\<lambda>t. promise t \<noteq> P) (starts s)\<rparr>;
          s2 = (if ok then s1 else s1\<lparr>isConverterRunning := False\<rparr>);
          s3 = s2\<lparr>converterStartPromise := None\<rparr>;
          ws = filter (\<lambda>w. fst w = P) (waiters s3);
          s4 = s3\<lparr>waiters := filter (\<lambda>w. fst w \<noteq> P) (waiters s3)\<rparr>
      in fold (\<lambda>w. resume_waiter ok (snd w)) ws s4)"

definition set_task :: "start_task \<Rightarrow> state \<Rightarrow> state" where
  "set_task t s =
     s\<lparr>starts := map (\<lambda>u. if promise u = promise t then t else u) (starts s)\<rparr>"

definition startStep :: "nat \<Rightarrow> outcome \<Rightarrow> state \<Rightarrow> state" where
  "startStep P out s =
     (case find (\<lambda>t. promise t = P) (starts s) of
        None \<Rightarrow> s
      | Some t \<Rightarrow>
          (case start_step t out s of
             Pending t' s' \<Rightarrow> set_task t' s'
           | Returned s' \<Rightarrow> settle P True s'
           | Threw s' \<Rightarrow> settle P False s'))"

text \<open>
  startConverterInternal up to its first timer (156-168). A throw at 158 rejects the
  promise at once, and tryStartConverter's catch and finally (150, 152) run in the same turn.
\<close>

definition startConverterInternal :: "state \<Rightarrow> state" where
  "startConverterInternal s =
     (if videoProducer s = None \<or> audioProducer s = None
      then s\<lparr>isConverterRunning := False, converterStartPromise := None\<rparr>
      else (let s1 = forceStopConverter s
            in fresh (s1\<lparr>converterStartPromise := Some (next_id s1),
                          starts := starts s1 @
                            [\<lparr>promise = next_id s1, pc = PortReleaseDelay,
                              arg_video = None, arg_audio = None,
                              local_videoTransport = None,
                              local_videoConsumer = None\<rparr>]\<rparr>)))"

text \<open>
  tryStartConverter (123-154). \<open>tryStart_admits\<close> is the negation of the two guards at 125
  and 135; \<open>tryStart_mark\<close> is the assignment at 141.
\<close>

definition tryStart_admits :: "state \<Rightarrow> bool" where
  "tryStart_admits s =
     (\<not> (isConverterRunning s \<or> videoProducer s = None \<or> audioProducer s = None)
      \<and> converterStartPromise s = None)"

definition tryStart_mark :: "state \<Rightarrow> state" where
  "tryStart_mark s = s\<lparr>isConverterRunning := True\<rparr>"

definition tryStartConverter :: "caller \<Rightarrow> state \<Rightarrow> state" where
  "tryStartConverter c s =
     (let s0 = s\<lparr>tryStart_calls := Suc (tryStart_calls s)\<rparr>
      in if isConverterRunning s0 \<or> videoProducer s0 = None \<or> audioProducer s0 = None
         then s0
         else (case converterStartPromise s0 of
                 Some P \<Rightarrow> s0\<lparr>waiters := waiters s0 @ [(P, Joined c)]\<rparr>
               | None \<Rightarrow> startConverterInternal (tryStart_mark s0)))"

text \<open>setProducer (76-121).\<close>

definition setProducer :: "kind \<Rightarrow> nat \<Rightarrow> state \<Rightarrow> state" where
  "setProducer k p s =
     (let s1 = clearRestartTimeout s
      in (case (case k of Video \<Rightarrow> videoProducer s1 | Audio \<Rightarrow> audioProducer s1) of
            None \<Rightarrow> setProducer_finish k p s1
          | Some q \<Rightarrow>
              (if q \<noteq> p then stopConverter (ThenSetProducer k p) s1
               else setProducer_finish k p s1)))"

text \<open>
  The transportclose listener registered at 103-115, for producer \<open>p\<close> set as kind \<open>k\<close>.
  A producer set more than once has as many listeners, and its one transportclose event
  runs them all.
\<close>

definition on_transportclose :: "kind \<Rightarrow> nat \<Rightarrow> state \<Rightarrow> state" where
  "on_transportclose k p s =
     (let s1 = (if k = Video \<and> videoProducer s = Some p then s\<lparr>videoProducer := None\<rparr>
                else if k = Audio \<and> audioProducer s = Some p then s\<lparr>audioProducer := None\<rparr>
                else s)
      in if videoProducer s1 = None \<and> audioProducer s1 = None
         then stopConverter ThenNothing s1 else s1)"

definition transportClose :: "kind \<Rightarrow> nat \<Rightarrow> state \<Rightarrow> state" where
  "transportClose k p s =
     ((on_transportclose k p) ^^ (count_list (listeners s) (k, p)))
       (s\<lparr>listeners := removeAll (k, p) (listeners s)\<rparr>)"

text \<open>restartConverter (219-225) up to its 2000 ms timer, and reset (239-244).\<close>

definition restartConverter :: "state \<Rightarrow> state" where
  "restartConverter s = stopConverter ThenRestartDelay s"

definition reset :: "state \<Rightarrow> state" where
  "reset s = stopConverter ThenNothing (s\<lparr>videoProducer := None, audioProducer := None\<rparr>)"

text \<open>getState (228-236).\<close>

record manager_state =
  gs_isConverterRunning :: bool
  gs_hasVideoProducer :: bool
  gs_hasAudioProducer :: bool
  gs_videoProducerId :: "nat option"
  gs_audioProducerId :: "nat option"

definition getState :: "state \<Rightarrow> manager_state" where
  "getState s =
     \<lparr> gs_isConverterRunning = isConverterRunning s,
       gs_hasVideoProducer = (videoProducer s \<noteq> None),
       gs_hasAudioProducer = (audioProducer s \<noteq> None),
       gs_videoProducerId = videoProducer s,
       gs_audioProducerId = audioProducer s \<rparr>"

section \<open>The event loop\<close>

text \<open>
  One event is one turn of the event loop: a call from the signaling layer or the operator
  routes, a timer that fires, the completion of what an in-flight start awaits, or the
  close event of a subprocess (856-859; the error handler at 861-864 does the same), which
  clears the handle whichever subprocess it holds. An event that is not enabled (a
  cancelled timer, an unknown promise) changes nothing.
\<close>

datatype event =
    SetProducer kind nat
  | TransportClose kind nat
  | DebounceFire nat
  | Restart
  | RestartDelayFire nat
  | Reset
  | Stop
  | StartStep nat outcome
  | ProcExit nat

fun step :: "event \<Rightarrow> state \<Rightarrow> state" where
  "step (SetProducer k p) s = setProducer k p s"
| "step (TransportClose k p) s = transportClose k p s"
| "step (DebounceFire t) s =
     (if t \<in> set (timers s)
      then tryStartConverter ByTimer (s\<lparr>timers := removeAll t (timers s)\<rparr>) else s)"
| "step Restart s = restartConverter s"
| "step (RestartDelayFire d) s =
     (if d \<in> set (restart_delays s)
      then tryStartConverter ByRestart (s\<lparr>restart_delays := removeAll d (restart_delays s)\<rparr>)
      else s)"
| "step Reset s = reset s"
| "step Stop s = stopConverter ThenNothing s"
| "step (StartStep P out) s = startStep P out s"
| "step (ProcExit p) s =
     (if p < length (procs s) \<and> procs s ! p \<noteq> Exited
      then s\<lparr>procs := (procs s)[p := Exited], ffmpegProcess := None\<rparr> else s)"

fun exec :: "event list \<Rightarrow> state \<Rightarrow> state" where
  "exec [] s = s"
| "exec (e # es) s = exec es (step e s)"

section \<open>The earlier synthesizer (part\_002)\<close>

text \<open>
  A second createSdpString (part\_002 66-102) builds the text from one template literal.
  Its formatParams (78-81) calls \<open>Object.keys\<close> without a guard, which raises a TypeError
  on a missing object; the fmtp lines (93, 99) and the channel count (98) are written
  unconditionally. It destructures \<open>ip\<close> and \<open>port\<close> from the transport tuple (72-73); the
  tuple carries \<open>localIp\<close> and \<open>localPort\<close>, so both ports are \<open>undefined\<close>.
\<close>

definition formatParams_legacy :: "(string \<times> param_value) list option \<Rightarrow> error + string" where
  "formatParams_legacy params =
     (case params of
        None \<Rightarrow> Inl TypeError
      | Some kvs \<Rightarrow> Inr (join '';'' (map (\<lambda>(k, v). k @ ''='' @ show_value v) kvs)))"

definition tuple_port :: "transport_tuple \<Rightarrow> nat option" where
  "tuple_port t = None"

definition show_num_opt :: "nat option \<Rightarrow> string" where
  "show_num_opt v = show_opt (map_option show_nat v)"

definition sdpLines_legacy ::
  "nat option \<Rightarrow> rtp_codec \<Rightarrow> nat option \<Rightarrow> rtp_codec \<Rightarrow> error + string list" where
  "sdpLines_legacy videoPort vc audioPort ac =
     (case formatParams_legacy (parameters vc) of
        Inl e \<Rightarrow> Inl e
      | Inr vparams \<Rightarrow>
          (case formatParams_legacy (parameters ac) of
             Inl e \<Rightarrow> Inl e
           | Inr aparams \<Rightarrow>
               Inr (session_header @
                    [''m=video '' @ show_num_opt videoPort @ '' RTP/AVP ''
                       @ show_nat (payloadType vc),
                     ''a=rtpmap:'' @ show_nat (payloadType vc) @ '' '' @ codec_name vc @ ''/''
                       @ show_nat (clockRate vc),
                     ''a=fmtp:'' @ show_nat (payloadType vc) @ '' '' @ vparams,
                     ''a=sendonly'',
                     ''m=audio '' @ show_num_opt audioPort @ '' RTP/AVP ''
                       @ show_nat (payloadType ac),
                     ''a=rtpmap:'' @ show_nat (payloadType ac) @ '' '' @ codec_name ac @ ''/''
                       @ show_nat (clockRate ac) @ ''/'' @ show_num_opt (channels ac),
                     ''a=fmtp:'' @ show_nat (payloadType ac) @ '' '' @ aparams,
                     ''a=sendonly''])))"

definition createSdpString_legacy ::
  "plain_transport \<Rightarrow> plain_transport \<Rightarrow> consumer \<Rightarrow> consumer \<Rightarrow> error + string" where
  "createSdpString_legacy vTransport aTransport vConsumer aConsumer =
     (case index_opt (codecs vConsumer) 0 of
        None \<Rightarrow> Inl TypeError
      | Some videoCodec \<Rightarrow>
          (case index_opt (codecs aConsumer) 0 of
             None \<Rightarrow> Inl TypeError
           | Some audioCodec \<Rightarrow>
               (case sdpLines_legacy (tuple_port (tuple vTransport)) videoCodec
                                     (tuple_port (tuple aTransport)) audioCodec of
                  Inl e \<Rightarrow> Inl e
                | Inr ls \<Rightarrow> Inr ([CHR 0x0A] @ join [CHR 0x0A] ls @ [CHR 0x0A] @ ''  ''))))"

section \<open>Notions used in the statements\<close>

subsection \<open>Session descriptions\<close>

text \<open>
  The RTP endpoint of a track, as the synthesizer reads it: the local port of the transport
  and the first codec of the consumer. It is absent when the consumer has no codec.
\<close>

definition rtp_endpoint :: "plain_transport \<Rightarrow> consumer \<Rightarrow> (nat \<times> rtp_codec) option" where
  "rtp_endpoint t c =
     map_option (\<lambda>codec. (localPort (tuple t), codec)) (index_opt (codecs c) 0)"

definition is_fmtp :: "string \<Rightarrow> bool" where
  "is_fmtp l = (take 7 l = ''a=fmtp:'')"

definition starts_audio :: "string \<Rightarrow> bool" where
  "starts_audio l = (take 8 l = ''m=audio '')"

text \<open>The lines of the video track end where the audio media line begins.\<close>

definition video_section :: "string list \<Rightarrow> string list" where
  "video_section ls = takeWhile (\<lambda>l. \<not> starts_audio l) ls"

definition audio_section :: "string list \<Rightarrow> string list" where
  "audio_section ls = dropWhile (\<lambda>l. \<not> starts_audio l) ls"

definition declares_params :: "rtp_codec \<Rightarrow> bool" where
  "declares_params c = (case parameters c of None \<Rightarrow> False | Some kvs \<Rightarrow> kvs \<noteq> [])"

text \<open>Sample endpoints: VP8 without format parameters, Opus without a channel count.\<close>

definition vp8 :: rtp_codec where
  "vp8 = \<lparr>mimeType = ''video/VP8'', payloadType = 101, clockRate = 90000,
           channels = None, parameters = Some []\<rparr>"

definition opus :: rtp_codec where
  "opus = \<lparr>mimeType = ''audio/opus'', payloadType = 100, clockRate = 48000,
            channels = None,
            parameters = Some [(''minptime'', PNum 10), (''useinbandfec'', PNum 1)]\<rparr>"

definition transport_at :: "nat \<Rightarrow> nat \<Rightarrow> plain_transport" where
  "transport_at i p = \<lparr>transport_id = i, tuple = \<lparr>localIp = ''127.0.0.1'', localPort = p\<rparr>\<rparr>"

definition consumer_of :: "nat \<Rightarrow> rtp_codec list \<Rightarrow> consumer" where
  "consumer_of i cs = \<lparr>consumer_id = i, codecs = cs\<rparr>"

subsection \<open>Calls into the converter module\<close>

text \<open>
  A log of the manager's calls into the converter module is free of overlap when no start
  is invoked while an earlier start has not been followed by a completed stop. \<open>busy\<close> is
  the flag a counting test double would keep: set by a start, cleared by a stop.
\<close>

fun overlap_free :: "bool \<Rightarrow> sup_call list \<Rightarrow> bool" where
  "overlap_free busy [] = True"
| "overlap_free busy (SupStart # cs) = (\<not> busy \<and> overlap_free True cs)"
| "overlap_free busy (SupStop # cs) = overlap_free False cs"

fun busy_after :: "bool \<Rightarrow> sup_call list \<Rightarrow> bool" where
  "busy_after busy [] = busy"
| "busy_after busy (SupStart # cs) = busy_after True cs"
| "busy_after busy (SupStop # cs) = busy_after False cs"

definition handles_null :: "state \<Rightarrow> bool" where
  "handles_null s =
     (ffmpegProcess s = None \<and> hlsTransports_video s = None \<and> hlsTransports_audio s = None
      \<and> hlsConsumers_video s = None \<and> hlsConsumers_audio s = None)"

text \<open>
  What holds while a start is suspended at each of its awaits: before startRtpToHlsConverter
  is called, the last call into the converter module was a stop; inside it, nothing has
  been stored in the registry beyond what the start itself stored.
\<close>

definition task_ok :: "start_task \<Rightarrow> state \<Rightarrow> bool" where
  "task_ok t s =
     (if pc t = PortReleaseDelay then \<not> busy_after False (sup_log s)
      else ffmpegProcess s = None \<and> hlsConsumers_video s = None \<and> hlsConsumers_audio s = None
           \<and> (pc t = VideoConsumerPending \<or> pc t = AudioConsumerPending
               \<or> hlsTransports_video s = None \<and> hlsTransports_audio s = None))"

text \<open>
  The invariant of the states between events: the flag is down, starts do not overlap, at
  most one start is in flight, the promise field names it, and every suspended continuation
  waits on it.
\<close>

definition inv :: "state \<Rightarrow> bool" where
  "inv s =
     (\<not> isConverterRunning s \<and> overlap_free False (sup_log s) \<and> length (starts s) \<le> 1 \<and>
      (if starts s = [] then converterStartPromise s = None \<and> waiters s = []
       else converterStartPromise s = Some (promise (hd (starts s)))
            \<and> list_all (\<lambda>w. fst w = promise (hd (starts s))) (waiters s)
            \<and> task_ok (hd (starts s)) s))"

text \<open>What a step of a start leaves alone.\<close>

definition frame :: "state \<Rightarrow> state \<Rightarrow> bool" where
  "frame s s' =
     (isConverterRunning s' = isConverterRunning s \<and> starts s' = starts s
      \<and> converterStartPromise s' = converterStartPromise s \<and> waiters s' = waiters s
      \<and> videoProducer s' = videoProducer s \<and> audioProducer s' = audioProducer s
      \<and> unhandled_rejections s' = unhandled_rejections s
      \<and> tryStart_calls s' = tryStart_calls s \<and> timers s' = timers s
      \<and> restartTimeout s' = restartTimeout s)"

subsection \<open>Sample runs\<close>

text \<open>
  Sample runs. Producers 1 (video) and 2 (audio) are set; the second call cancels timer 0
  and arms timer 1; timer 1 fires and the start with promise 2 is in flight; all six awaits
  resolve and subprocess 0 runs.
\<close>

definition two_producers :: "event list" where
  "two_producers = [SetProducer Video 1, SetProducer Audio 2]"

definition start_in_flight :: "event list" where
  "start_in_flight = two_producers @ [DebounceFire 1]"

definition all_resolved :: "nat \<Rightarrow> event list" where
  "all_resolved P = replicate 6 (StartStep P Resolved)"

definition converter_running :: "event list" where
  "converter_running = start_in_flight @ all_resolved 2"

text \<open>Video producer 3 replaces producer 1 afterwards, and the converter is started again.\<close>

definition second_start :: "event list" where
  "second_start = converter_running @ [SetProducer Video 3, DebounceFire 7] @ all_resolved 8"

text \<open>
  Subprocess 0, signalled by the stop of that second start, exits only after subprocess 1
  has been created. Video producer 5 then replaces producer 3 and the converter is started
  a third time.
\<close>

definition third_start :: "event list" where
  "third_start =
     second_start @ [ProcExit 0, SetProducer Video 5, DebounceFire 13] @ all_resolved 14"

text \<open>The subprocesses that have been created and neither signalled nor seen to exit.\<close>

definition alive :: "state \<Rightarrow> nat" where
  "alive s = count_list (procs s) Alive"

text \<open>
  stopConverter called once, and called twice back to back, while the first start is in
  flight; the start then runs through its six awaits.
\<close>

definition stop_once_during_start :: "event list" where
  "stop_once_during_start = start_in_flight @ [Stop] @ all_resolved 2"

definition stop_twice_during_start :: "event list" where
  "stop_twice_during_start = start_in_flight @ [Stop, Stop] @ all_resolved 2"

text \<open>
  The first start, suspended at its last await (the audio consumer), and the state in which
  it throws when a statement after that await fails.
\<close>

definition consumers_pending :: "event list" where
  "consumers_pending = start_in_flight @ replicate 5 (StartStep 2 Resolved)"

definition audio_consumer_task :: start_task where
  "audio_consumer_task =
     \<lparr>promise = 2, pc = AudioConsumerPending, arg_video = Some 1, arg_audio = Some 2,
      local_videoTransport = Some 3, local_videoConsumer = Some 5\<rparr>"

definition state_at_throw :: state where
  "state_at_throw =
     stopHlsConverter (fresh ((exec consumers_pending init)
        \<lparr>hlsConsumers_video := Some 5, hlsConsumers_audio := Some 6\<rparr>))"

subsection \<open>Further notions and runs\<close>

text \<open>Events that set an audio producer, and the states in which no audio producer is set
  and nothing is in flight.\<close>

fun sets_audio :: "event \<Rightarrow> bool" where
  "sets_audio (SetProducer Audio p) = True"
| "sets_audio e = False"

definition parked :: "state \<Rightarrow> bool" where
  "parked s =
     (audioProducer s = None \<and> \<not> isConverterRunning s \<and> converterStartPromise s = None
      \<and> starts s = [] \<and> waiters s = [])"

text \<open>
  What a settled start failure must leave as it was: no producer slot cleared, and no
  rejection left unhandled.
\<close>

definition settled_like :: "state \<Rightarrow> state \<Rightarrow> bool" where
  "settled_like s s' =
     ((videoProducer s \<noteq> None \<longrightarrow> videoProducer s' \<noteq> None)
      \<and> (audioProducer s \<noteq> None \<longrightarrow> audioProducer s' \<noteq> None)
      \<and> unhandled_rejections s' = unhandled_rejections s)"

text \<open>Events tried after the audio producer has closed; none of them sets an audio producer.\<close>

definition after_audio_close :: "event list" where
  "after_audio_close = [DebounceFire 1, Restart, RestartDelayFire 7, SetProducer Video 3,
                        DebounceFire 8, Stop]"

text \<open>
  Two setProducer calls that replace both producers while the start with promise 2 is in
  flight: both suspend in stopConverter until the start has settled.
\<close>

definition overlapped_calls :: "event list" where
  "overlapped_calls = start_in_flight @ [SetProducer Video 3, SetProducer Audio 4] @ all_resolved 2"

text \<open>
  The video producer closes and a new one is set while the start is in flight; its debounce
  timer fires before the start has settled, and createPlainTransport then rejects.
\<close>

definition joined_start_fails :: "event list" where
  "joined_start_fails =
     start_in_flight @ [TransportClose Video 1, SetProducer Video 3, DebounceFire 3,
                        StartStep 2 Resolved, StartStep 2 Resolved, StartStep 2 Rejected]"

section \<open>Proofs: session descriptions\<close>

lemma join_nonempty: "x \<noteq> [] \<Longrightarrow> join sep (x # xs) \<noteq> []"
  by (cases xs) simp_all

lemma formatParams_empty_iff: "formatParams (parameters c) = [] \<longleftrightarrow> \<not> declares_params c"
proof (cases "parameters c")
  case None
  then show ?thesis by (simp add: formatParams_def declares_params_def)
next
  case (Some kvs)
  show ?thesis
  proof (cases kvs)
    case Nil
    with Some show ?thesis by (simp add: formatParams_def declares_params_def)
  next
    case (Cons kv rest)
    obtain k v where kv: "kv = (k, v)" by (cases kv)
    have "join '';'' ((k @ ''='' @ show_value v) # map (\<lambda>(k, v). k @ ''='' @ show_value v) rest)
            \<noteq> []"
      by (rule join_nonempty) simp
    with Some Cons kv show ?thesis by (simp add: formatParams_def declares_params_def)
  qed
qed

lemma fmtp_line_cases:
  "fmtp_line c =
     (if declares_params c
      then [''a=fmtp:'' @ show_nat (payloadType c) @ '' '' @ formatParams (parameters c)]
      else [])"
  using formatParams_empty_iff [of c] by (simp add: fmtp_line_def Let_def)

lemma video_section_sdpLines:
  "video_section (sdpLines vp vc ap ac) = session_header @ video_lines vp vc"
  by (simp add: video_section_def sdpLines_def session_header_def video_lines_def
        audio_lines_def fmtp_line_cases starts_audio_def)

lemma audio_section_sdpLines:
  "audio_section (sdpLines vp vc ap ac) = audio_lines ap ac"
  by (simp add: audio_section_def sdpLines_def session_header_def video_lines_def
        audio_lines_def fmtp_line_cases starts_audio_def)

lemma fmtp_in_video:
  "(\<exists>l \<in> set (session_header @ video_lines vp vc). is_fmtp l) \<longleftrightarrow> declares_params vc"
  by (simp add: session_header_def video_lines_def fmtp_line_cases is_fmtp_def)

lemma fmtp_in_audio: "(\<exists>l \<in> set (audio_lines ap ac). is_fmtp l) \<longleftrightarrow> declares_params ac"
  by (simp add: audio_lines_def fmtp_line_cases is_fmtp_def)

lemma show_nat_2: "show_nat 2 = ''2''"
  by (simp add: show_nat.simps digit_def)

lemma channels_default: "channels ac = None \<Longrightarrow> show_nat (channels_or_2 ac) = ''2''"
  by (simp add: channels_or_2_def show_nat_2)

lemma sample_endpoints:
  "rtp_endpoint (transport_at 3 5004) (consumer_of 5 [vp8]) = Some (5004, vp8)"
  "rtp_endpoint (transport_at 4 5006) (consumer_of 6 [opus]) = Some (5006, opus)"
  "rtp_endpoint (transport_at 7 5004) (consumer_of 9 [vp8, opus]) = Some (5004, vp8)"
  "rtp_endpoint (transport_at 8 5006) (consumer_of 10 [opus]) = Some (5006, opus)"
  by (simp_all add: rtp_endpoint_def transport_at_def consumer_of_def)

text \<open>
  C8. The synthesized text is a function of the two RTP endpoints alone, and the synthesis
  never fails on a valid pair: whenever both consumers carry a codec, createSdpString
  returns a text, and any other transports and consumers that present the same two
  endpoints (whatever their identifiers, addresses or further codecs) give the same text,
  byte for byte.
\<close>

theorem createSdpString_function_of_endpoints:
  assumes "rtp_endpoint vT vC = Some ve" and "rtp_endpoint aT aC = Some ae"
      and "rtp_endpoint vT' vC' = Some ve" and "rtp_endpoint aT' aC' = Some ae"
  shows "(\<exists>text. createSdpString vT aT vC aC = Inr text)
       \<and> createSdpString vT' aT' vC' aC' = createSdpString vT aT vC aC"
  using assms by (auto simp: rtp_endpoint_def createSdpString_def split: option.splits)

theorem createSdpString_function_of_endpoints_witness:
  "rtp_endpoint (transport_at 3 5004) (consumer_of 5 [vp8]) = Some (5004, vp8)
   \<and> rtp_endpoint (transport_at 4 5006) (consumer_of 6 [opus]) = Some (5006, opus)
   \<and> rtp_endpoint (transport_at 7 5004) (consumer_of 9 [vp8, opus]) = Some (5004, vp8)
   \<and> rtp_endpoint (transport_at 8 5006) (consumer_of 10 [opus]) = Some (5006, opus)
   \<and> (\<exists>text. createSdpString (transport_at 3 5004) (transport_at 4 5006)
                 (consumer_of 5 [vp8]) (consumer_of 6 [opus]) = Inr text)
   \<and> createSdpString (transport_at 7 5004) (transport_at 8 5006)
        (consumer_of 9 [vp8, opus]) (consumer_of 10 [opus])
       = createSdpString (transport_at 3 5004) (transport_at 4 5006)
           (consumer_of 5 [vp8]) (consumer_of 6 [opus])"
  using createSdpString_function_of_endpoints [OF sample_endpoints] sample_endpoints
  by blast

section \<open>Proofs: the invariant of the manager\<close>

lemma overlap_free_snoc_stop [simp]: "overlap_free b (cs @ [SupStop]) = overlap_free b cs"
  by (induction b cs rule: overlap_free.induct) simp_all

lemma overlap_free_snoc_start [simp]:
  "overlap_free b (cs @ [SupStart]) = (overlap_free b cs \<and> \<not> busy_after b cs)"
  by (induction b cs rule: overlap_free.induct) auto

lemma busy_after_snoc_stop [simp]: "busy_after b (cs @ [SupStop]) = False"
  by (induction b cs rule: busy_after.induct) simp_all

lemma busy_after_snoc_start [simp]: "busy_after b (cs @ [SupStart]) = True"
  by (induction b cs rule: busy_after.induct) simp_all

lemma kill_fields [simp]:
  "isConverterRunning (kill p s) = isConverterRunning s"
  "videoProducer (kill p s) = videoProducer s"
  "audioProducer (kill p s) = audioProducer s"
  "converterStartPromise (kill p s) = converterStartPromise s"
  "restartTimeout (kill p s) = restartTimeout s"
  "ffmpegProcess (kill p s) = ffmpegProcess s"
  "hlsTransports_video (kill p s) = hlsTransports_video s"
  "hlsTransports_audio (kill p s) = hlsTransports_audio s"
  "hlsConsumers_video (kill p s) = hlsConsumers_video s"
  "hlsConsumers_audio (kill p s) = hlsConsumers_audio s"
  "timers (kill p s) = timers s"
  "restart_delays (kill p s) = restart_delays s"
  "listeners (kill p s) = listeners s"
  "starts (kill p s) = starts s"
  "waiters (kill p s) = waiters s"
  "next_id (kill p s) = next_id s"
  "sup_log (kill p s) = sup_log s"
  "tryStart_calls (kill p s) = tryStart_calls s"
  "unhandled_rejections (kill p s) = unhandled_rejections s"
  "length (procs (kill p s)) = length (procs s)"
  by (simp_all add: kill_def)

lemma stopHlsConverter_fields [simp]:
  "isConverterRunning (stopHlsConverter s) = isConverterRunning s"
  "videoProducer (stopHlsConverter s) = videoProducer s"
  "audioProducer (stopHlsConverter s) = audioProducer s"
  "converterStartPromise (stopHlsConverter s) = converterStartPromise s"
  "restartTimeout (stopHlsConverter s) = restartTimeout s"
  "timers (stopHlsConverter s) = timers s"
  "restart_delays (stopHlsConverter s) = restart_delays s"
  "listeners (stopHlsConverter s) = listeners s"
  "starts (stopHlsConverter s) = starts s"
  "waiters (stopHlsConverter s) = waiters s"
  "next_id (stopHlsConverter s) = next_id s"
  "sup_log (stopHlsConverter s) = sup_log s"
  "tryStart_calls (stopHlsConverter s) = tryStart_calls s"
  "unhandled_rejections (stopHlsConverter s) = unhandled_rejections s"
  "length (procs (stopHlsConverter s)) = length (procs s)"
  by (simp_all add: stopHlsConverter_def Let_def split: option.splits)

lemma stopHlsConverter_handles [simp]:
  "ffmpegProcess (stopHlsConverter s) = None"
  "hlsTransports_video (stopHlsConverter s) = None"
  "hlsTransports_audio (stopHlsConverter s) = None"
  "hlsConsumers_video (stopHlsConverter s) = None"
  "hlsConsumers_audio (stopHlsConverter s) = None"
  by (simp_all add: stopHlsConverter_def Let_def split: option.splits)

lemma inv_cong:
  assumes "isConverterRunning s' = isConverterRunning s" "sup_log s' = sup_log s"
      and "starts s' = starts s" "converterStartPromise s' = converterStartPromise s"
      and "waiters s' = waiters s" "ffmpegProcess s' = ffmpegProcess s"
      and "hlsTransports_video s' = hlsTransports_video s"
      and "hlsTransports_audio s' = hlsTransports_audio s"
      and "hlsConsumers_video s' = hlsConsumers_video s"
      and "hlsConsumers_audio s' = hlsConsumers_audio s"
  shows "inv s' = inv s"
  using assms by (simp add: inv_def task_ok_def handles_null_def)

lemma fresh_fields [simp]:
  "isConverterRunning (fresh s) = isConverterRunning s"
  "videoProducer (fresh s) = videoProducer s"
  "audioProducer (fresh s) = audioProducer s"
  "converterStartPromise (fresh s) = converterStartPromise s"
  "restartTimeout (fresh s) = restartTimeout s"
  "ffmpegProcess (fresh s) = ffmpegProcess s"
  "hlsTransports_video (fresh s) = hlsTransports_video s"
  "hlsTransports_audio (fresh s) = hlsTransports_audio s"
  "hlsConsumers_video (fresh s) = hlsConsumers_video s"
  "hlsConsumers_audio (fresh s) = hlsConsumers_audio s"
  "timers (fresh s) = timers s"
  "restart_delays (fresh s) = restart_delays s"
  "listeners (fresh s) = listeners s"
  "starts (fresh s) = starts s"
  "waiters (fresh s) = waiters s"
  "procs (fresh s) = procs s"
  "next_id (fresh s) = Suc (next_id s)"
  "sup_log (fresh s) = sup_log s"
  "tryStart_calls (fresh s) = tryStart_calls s"
  "unhandled_rejections (fresh s) = unhandled_rejections s"
  by (simp_all add: fresh_def)

lemma clearRestartTimeout_fields [simp]:
  "isConverterRunning (clearRestartTimeout s) = isConverterRunning s"
  "videoProducer (clearRestartTimeout s) = videoProducer s"
  "audioProducer (clearRestartTimeout s) = audioProducer s"
  "converterStartPromise (clearRestartTimeout s) = converterStartPromise s"
  "restartTimeout (clearRestartTimeout s) = None"
  "ffmpegProcess (clearRestartTimeout s) = ffmpegProcess s"
  "hlsTransports_video (clearRestartTimeout s) = hlsTransports_video s"
  "hlsTransports_audio (clearRestartTimeout s) = hlsTransports_audio s"
  "hlsConsumers_video (clearRestartTimeout s) = hlsConsumers_video s"
  "hlsConsumers_audio (clearRestartTimeout s) = hlsConsumers_audio s"
  "restart_delays (clearRestartTimeout s) = restart_delays s"
  "listeners (clearRestartTimeout s) = listeners s"
  "starts (clearRestartTimeout s) = starts s"
  "waiters (clearRestartTimeout s) = waiters s"
  "procs (clearRestartTimeout s) = procs s"
  "next_id (clearRestartTimeout s) = next_id s"
  "sup_log (clearRestartTimeout s) = sup_log s"
  "tryStart_calls (clearRestartTimeout s) = tryStart_calls s"
  "unhandled_rejections (clearRestartTimeout s) = unhandled_rejections s"
  by (simp_all add: clearRestartTimeout_def split: option.splits)

lemma setProducer_finish_fields [simp]:
  "isConverterRunning (setProducer_finish k p s) = isConverterRunning s"
  "converterStartPromise (setProducer_finish k p s) = converterStartPromise s"
  "ffmpegProcess (setProducer_finish k p s) = ffmpegProcess s"
  "hlsTransports_video (setProducer_finish k p s) = hlsTransports_video s"
  "hlsTransports_audio (setProducer_finish k p s) = hlsTransports_audio s"
  "hlsConsumers_video (setProducer_finish k p s) = hlsConsumers_video s"
  "hlsConsumers_audio (setProducer_finish k p s) = hlsConsumers_audio s"
  "restart_delays (setProducer_finish k p s) = restart_delays s"
  "starts (setProducer_finish k p s) = starts s"
  "waiters (setProducer_finish k p s) = waiters s"
  "procs (setProducer_finish k p s) = procs s"
  "sup_log (setProducer_finish k p s) = sup_log s"
  "tryStart_calls (setProducer_finish k p s) = tryStart_calls s"
  "unhandled_rejections (setProducer_finish k p s) = unhandled_rejections s"
  by (cases k; simp add: setProducer_finish_def Let_def)+

lemma run_after_stop_fields [simp]:
  "isConverterRunning (run_after_stop k s) = isConverterRunning s"
  "converterStartPromise (run_after_stop k s) = converterStartPromise s"
  "ffmpegProcess (run_after_stop k s) = ffmpegProcess s"
  "hlsTransports_video (run_after_stop k s) = hlsTransports_video s"
  "hlsTransports_audio (run_after_stop k s) = hlsTransports_audio s"
  "hlsConsumers_video (run_after_stop k s) = hlsConsumers_video s"
  "hlsConsumers_audio (run_after_stop k s) = hlsConsumers_audio s"
  "starts (run_after_stop k s) = starts s"
  "waiters (run_after_stop k s) = waiters s"
  "procs (run_after_stop k s) = procs s"
  "sup_log (run_after_stop k s) = sup_log s"
  "tryStart_calls (run_after_stop k s) = tryStart_calls s"
  "unhandled_rejections (run_after_stop k s) = unhandled_rejections s"
  by (cases k; simp)+

lemma stop_supervisor_fields [simp]:
  "isConverterRunning (stop_supervisor s) = isConverterRunning s"
  "videoProducer (stop_supervisor s) = videoProducer s"
  "audioProducer (stop_supervisor s) = audioProducer s"
  "converterStartPromise (stop_supervisor s) = converterStartPromise s"
  "restartTimeout (stop_supervisor s) = restartTimeout s"
  "ffmpegProcess (stop_supervisor s) = None"
  "hlsTransports_video (stop_supervisor s) = None"
  "hlsTransports_audio (stop_supervisor s) = None"
  "hlsConsumers_video (stop_supervisor s) = None"
  "hlsConsumers_audio (stop_supervisor s) = None"
  "timers (stop_supervisor s) = timers s"
  "restart_delays (stop_supervisor s) = restart_delays s"
  "listeners (stop_supervisor s) = listeners s"
  "starts (stop_supervisor s) = starts s"
  "waiters (stop_supervisor s) = waiters s"
  "next_id (stop_supervisor s) = next_id s"
  "sup_log (stop_supervisor s) = sup_log s @ [SupStop]"
  "tryStart_calls (stop_supervisor s) = tryStart_calls s"
  "unhandled_rejections (stop_supervisor s) = unhandled_rejections s"
  by (simp_all add: stop_supervisor_def)

lemma inv_fresh [simp]: "inv (fresh s) = inv s"
  by (rule inv_cong) simp_all

lemma inv_run_after_stop [simp]: "inv (run_after_stop k s) = inv s"
  by (rule inv_cong) simp_all

lemma inv_clearRestartTimeout [simp]: "inv (clearRestartTimeout s) = inv s"
  by (rule inv_cong) simp_all

lemma task_ok_after_stop: "task_ok t (stop_supervisor s)"
  by (simp add: task_ok_def)

lemma inv_stop_supervisor: "inv s \<Longrightarrow> inv (stop_supervisor s)"
  by (simp add: inv_def task_ok_after_stop)

lemma inv_add_waiter:
  "inv s \<Longrightarrow> converterStartPromise s = Some P \<Longrightarrow> inv (s\<lparr>waiters := waiters s @ [(P, w)]\<rparr>)"
  by (auto simp: inv_def task_ok_def)

lemma inv_not_running: "inv s \<Longrightarrow> inv (s\<lparr>isConverterRunning := False\<rparr>)"
  by (auto simp: inv_def task_ok_def split: if_splits)

lemma inv_stopConverter: "inv s \<Longrightarrow> inv (stopConverter k s)"
proof -
  assume i: "inv s"
  show ?thesis
  proof (cases "\<not> isConverterRunning s \<and> converterStartPromise s = None")
    case True
    with i show ?thesis by (simp add: stopConverter_def)
  next
    case False
    let ?s1 = "clearRestartTimeout (s\<lparr>isConverterRunning := False\<rparr>)"
    have i1: "inv ?s1" using i by (simp add: inv_not_running)
    show ?thesis
    proof (cases "converterStartPromise ?s1")
      case None
      with False i1 show ?thesis
        by (simp add: stopConverter_def Let_def inv_stop_supervisor)
    next
      case (Some P)
      have "inv (?s1\<lparr>waiters := waiters ?s1 @ [(P, Stopping k)]\<rparr>)"
        using i1 Some by (rule inv_add_waiter)
      with False Some show ?thesis by (simp add: stopConverter_def Let_def)
    qed
  qed
qed

lemma inv_idle_intro:
  "\<not> isConverterRunning s \<Longrightarrow> overlap_free False (sup_log s) \<Longrightarrow> starts s = []
   \<Longrightarrow> converterStartPromise s = None \<Longrightarrow> waiters s = [] \<Longrightarrow> inv s"
  by (simp add: inv_def)

lemma inv_idleD:
  "inv s \<Longrightarrow> starts s = [] \<Longrightarrow>
     \<not> isConverterRunning s \<and> overlap_free False (sup_log s)
     \<and> converterStartPromise s = None \<and> waiters s = []"
  by (simp add: inv_def)

lemma inv_stopConverter_resume:
  assumes "inv s" and "starts s = []"
  shows "inv (stopConverter_resume k s) \<and> starts (stopConverter_resume k s) = []"
proof -
  have "inv (stop_supervisor (s\<lparr>converterStartPromise := None\<rparr>))"
    using inv_idleD [OF assms] assms(2) by (intro inv_idle_intro) simp_all
  then show ?thesis using assms(2) by (simp add: stopConverter_resume_def)
qed

lemma inv_resume_waiter:
  assumes "inv s" and "starts s = []"
  shows "inv (resume_waiter ok w s) \<and> starts (resume_waiter ok w s) = []"
proof (cases w)
  case (Stopping k)
  then show ?thesis using inv_stopConverter_resume [OF assms] by simp
next
  case (Joined c)
  have "inv (s\<lparr>unhandled_rejections := Suc (unhandled_rejections s)\<rparr>) = inv s"
    by (rule inv_cong) simp_all
  with Joined assms show ?thesis by simp
qed

lemma inv_fold_resume:
  "inv s \<Longrightarrow> starts s = [] \<Longrightarrow>
     inv (fold (\<lambda>w. resume_waiter ok (snd w)) ws s)
     \<and> starts (fold (\<lambda>w. resume_waiter ok (snd w)) ws s) = []"
proof (induction ws arbitrary: s)
  case Nil
  then show ?case by simp
next
  case (Cons w ws)
  from inv_resume_waiter [OF Cons.prems, of ok "snd w"]
  show ?case using Cons.IH by simp
qed

text \<open>Settling the only in-flight start leaves the manager idle.\<close>

lemma inv_settle:
  assumes run: "\<not> isConverterRunning s" and log: "overlap_free False (sup_log s)"
      and one: "starts s = [t]" and p: "promise t = P"
      and ws: "list_all (\<lambda>w. fst w = P) (waiters s)"
  shows "inv (settle P ok s) \<and> starts (settle P ok s) = []"
proof -
  have f: "filter (\<lambda>w. fst w \<noteq> P) (waiters s) = []"
    using ws by (simp add: filter_empty_conv list_all_iff)
  let ?s4 = "s\<lparr>starts := [], converterStartPromise := None, waiters := []\<rparr>"
  have i4: "inv ?s4" using log run by (intro inv_idle_intro) simp_all
  have r: "s\<lparr>starts := [], isConverterRunning := False\<rparr> = s\<lparr>starts := []\<rparr>"
    using run by simp
  have e: "settle P ok s
             = fold (\<lambda>w. resume_waiter ok (snd w)) (filter (\<lambda>w. fst w = P) (waiters s)) ?s4"
    using one p f r by (simp add: settle_def Let_def)
  show ?thesis unfolding e by (rule inv_fold_resume [OF i4]) simp
qed

lemma runFfmpeg_fields [simp]:
  "isConverterRunning (runFfmpeg s) = isConverterRunning s"
  "videoProducer (runFfmpeg s) = videoProducer s"
  "audioProducer (runFfmpeg s) = audioProducer s"
  "converterStartPromise (runFfmpeg s) = converterStartPromise s"
  "restartTimeout (runFfmpeg s) = restartTimeout s"
  "ffmpegProcess (runFfmpeg s) = Some (length (procs s))"
  "hlsTransports_video (runFfmpeg s) = hlsTransports_video s"
  "hlsTransports_audio (runFfmpeg s) = hlsTransports_audio s"
  "hlsConsumers_video (runFfmpeg s) = hlsConsumers_video s"
  "hlsConsumers_audio (runFfmpeg s) = hlsConsumers_audio s"
  "timers (runFfmpeg s) = timers s"
  "restart_delays (runFfmpeg s) = restart_delays s"
  "listeners (runFfmpeg s) = listeners s"
  "starts (runFfmpeg s) = starts s"
  "waiters (runFfmpeg s) = waiters s"
  "procs (runFfmpeg s) = procs s @ [Alive]"
  "next_id (runFfmpeg s) = next_id s"
  "sup_log (runFfmpeg s) = sup_log s"
  "tryStart_calls (runFfmpeg s) = tryStart_calls s"
  "unhandled_rejections (runFfmpeg s) = unhandled_rejections s"
  by (simp_all add: runFfmpeg_def)

lemma start_step_Pending:
  assumes "start_step t out s = Pending t' s'"
  shows "promise t' = promise t \<and> frame s s'
         \<and> (task_ok t s \<longrightarrow> overlap_free False (sup_log s) \<longrightarrow>
              task_ok t' s' \<and> overlap_free False (sup_log s'))"
  using assms
  by (cases "pc t"; cases out)
     (auto simp: start_step_def Let_def catch_cleanup_def frame_def task_ok_def
           split: if_splits option.splits)

lemma start_step_Returned:
  assumes "start_step t out s = Returned s'"
  shows "frame s s' \<and> sup_log s' = sup_log s"
  using assms
  by (cases "pc t"; cases out)
     (auto simp: start_step_def Let_def catch_cleanup_def frame_def split: if_splits option.splits)

lemma start_step_Threw:
  assumes "start_step t out s = Threw s'"
  shows "frame s s' \<and> sup_log s' = sup_log s \<and> (task_ok t s \<longrightarrow> handles_null s')"
  using assms
  by (cases "pc t"; cases out)
     (auto simp: start_step_def Let_def catch_cleanup_def frame_def task_ok_def handles_null_def
           split: if_splits option.splits)

lemma inv_single:
  assumes "inv s" and "find (\<lambda>t. promise t = P) (starts s) = Some t"
  shows "starts s = [t] \<and> promise t = P \<and> converterStartPromise s = Some P
         \<and> list_all (\<lambda>w. fst w = P) (waiters s) \<and> task_ok t s"
proof -
  from assms(2) have ne: "starts s \<noteq> []" by auto
  with assms(1) have len: "length (starts s) = 1" by (cases "starts s") (simp_all add: inv_def)
  then obtain u where u: "starts s = [u]" by (cases "starts s") simp_all
  with assms(2) have "u = t" "promise t = P" by (simp_all split: if_splits)
  with u assms(1) show ?thesis by (simp add: inv_def)
qed

lemma inv_startStep: "inv s \<Longrightarrow> inv (startStep P out s)"
proof -
  assume i: "inv s"
  show ?thesis
  proof (cases "find (\<lambda>t. promise t = P) (starts s)")
    case None
    with i show ?thesis by (simp add: startStep_def)
  next
    case (Some t)
    note one = inv_single [OF i Some]
    from i have base: "\<not> isConverterRunning s" "overlap_free False (sup_log s)"
      by (simp_all add: inv_def)
    show ?thesis
    proof (cases "start_step t out s")
      case (Pending t' s')
      from start_step_Pending [OF Pending] one base
      have "promise t' = P" "frame s s'" "task_ok t' s'" "overlap_free False (sup_log s')"
        by simp_all
      then have "inv (set_task t' s')"
        using one base by (simp add: inv_def set_task_def frame_def task_ok_def)
      with Some Pending show ?thesis by (simp add: startStep_def)
    next
      case (Returned s')
      from start_step_Returned [OF Returned] one base
      have "inv (settle P True s')"
        by (intro conjunct1 [OF inv_settle [where t = t]]) (simp_all add: frame_def)
      with Some Returned show ?thesis by (simp add: startStep_def)
    next
      case (Threw s')
      from start_step_Threw [OF Threw] one base
      have "inv (settle P False s')"
        by (intro conjunct1 [OF inv_settle [where t = t]]) (simp_all add: frame_def)
      with Some Threw show ?thesis by (simp add: startStep_def)
    qed
  qed
qed

lemma inv_tryStartConverter: "inv s \<Longrightarrow> inv (tryStartConverter c s)"
proof -
  assume i: "inv s"
  let ?s0 = "s\<lparr>tryStart_calls := Suc (tryStart_calls s)\<rparr>"
  have i0: "inv ?s0" using i by (simp add: inv_cong [of ?s0 s])
  show ?thesis
  proof (cases "isConverterRunning s \<or> videoProducer s = None \<or> audioProducer s = None")
    case True
    with i0 show ?thesis by (simp add: tryStartConverter_def Let_def)
  next
    case False
    then have g: "\<not> isConverterRunning s" "videoProducer s \<noteq> None" "audioProducer s \<noteq> None"
      by simp_all
    show ?thesis
    proof (cases "converterStartPromise s")
      case (Some P)
      have "inv (?s0\<lparr>waiters := waiters ?s0 @ [(P, Joined c)]\<rparr>)"
        using i0 Some by (intro inv_add_waiter) simp_all
      with g Some show ?thesis by (auto simp: tryStartConverter_def Let_def)
    next
      case None
      with i have idle: "starts s = []" "waiters s = []" "overlap_free False (sup_log s)"
        by (auto simp: inv_def split: if_splits)
      with g None show ?thesis
        by (auto simp: tryStartConverter_def Let_def tryStart_mark_def startConverterInternal_def
              forceStopConverter_def inv_def task_ok_def)
    qed
  qed
qed

lemma inv_setProducer: "inv s \<Longrightarrow> inv (setProducer k p s)"
proof -
  assume i: "inv s"
  have f: "inv (setProducer_finish k p (clearRestartTimeout s))"
    using i by (simp add: inv_cong [of "setProducer_finish k p (clearRestartTimeout s)" s])
  have c: "inv (stopConverter (ThenSetProducer k p) (clearRestartTimeout s))"
    using i by (intro inv_stopConverter) simp
  show ?thesis using f c by (simp add: setProducer_def Let_def split: option.splits)
qed

lemma inv_on_transportclose: "inv s \<Longrightarrow> inv (on_transportclose k p s)"
proof -
  assume i: "inv s"
  have v: "inv (s\<lparr>videoProducer := None\<rparr>)"
    using i by (simp add: inv_cong [of "s\<lparr>videoProducer := None\<rparr>" s])
  have a: "inv (s\<lparr>audioProducer := None\<rparr>)"
    using i by (simp add: inv_cong [of "s\<lparr>audioProducer := None\<rparr>" s])
  show ?thesis using i v a by (simp add: on_transportclose_def Let_def inv_stopConverter)
qed

lemma inv_funpow: "inv s \<Longrightarrow> inv (((on_transportclose k p) ^^ n) s)"
  by (induction n) (simp_all add: inv_on_transportclose)

lemma inv_transportClose: "inv s \<Longrightarrow> inv (transportClose k p s)"
proof -
  assume i: "inv s"
  let ?s = "s\<lparr>listeners := removeAll (k, p) (listeners s)\<rparr>"
  have "inv ?s" using i by (simp add: inv_cong [of ?s s])
  then show ?thesis unfolding transportClose_def by (rule inv_funpow)
qed

lemma inv_reset: "inv s \<Longrightarrow> inv (reset s)"
proof -
  assume i: "inv s"
  let ?s = "s\<lparr>videoProducer := None, audioProducer := None\<rparr>"
  have "inv ?s" using i by (simp add: inv_cong [of ?s s])
  then show ?thesis unfolding reset_def by (rule inv_stopConverter)
qed

lemma inv_procExit:
  "inv s \<Longrightarrow> inv (s\<lparr>procs := ps, ffmpegProcess := None\<rparr>)"
  by (auto simp: inv_def task_ok_def split: if_splits)

lemma inv_step: "inv s \<Longrightarrow> inv (step e s)"
proof (cases e)
  case (DebounceFire t)
  assume i: "inv s"
  let ?s = "s\<lparr>timers := removeAll t (timers s)\<rparr>"
  have "inv ?s" using i by (simp add: inv_cong [of ?s s])
  with i DebounceFire show ?thesis by (simp add: inv_tryStartConverter)
next
  case (RestartDelayFire d)
  assume i: "inv s"
  let ?s = "s\<lparr>restart_delays := removeAll d (restart_delays s)\<rparr>"
  have "inv ?s" using i by (simp add: inv_cong [of ?s s])
  with i RestartDelayFire show ?thesis by (simp add: inv_tryStartConverter)
qed (simp_all add: inv_setProducer inv_transportClose inv_reset inv_stopConverter
       restartConverter_def inv_startStep inv_procExit)

lemma inv_init: "inv init"
  by (simp add: inv_def init_def)

lemma inv_exec: "inv s \<Longrightarrow> inv (exec evs s)"
  by (induction evs arbitrary: s) (simp_all add: inv_step)

lemma inv_reachable: "inv (exec evs init)"
  by (rule inv_exec [OF inv_init])

section \<open>Proofs: the claims about the manager\<close>

text \<open>
  The calls of the manager into the converter module are in order: for every sequence of
  events, startRtpToHlsConverter is never invoked while an earlier invocation has not been
  followed by a stopHlsConverter call of the manager, and at most one start is in flight.
\<close>

lemma manager_calls_never_overlap:
  "overlap_free False (sup_log (exec evs init)) \<and> length (starts (exec evs init)) \<le> 1"
  using inv_reachable [of evs] by (simp add: inv_def)

text \<open>
  C1 fails on the code, although the calls are in order. After the second start the handle
  holds subprocess 1, and subprocess 0 has been signalled. When subprocess 0 exits, its
  close handler (856-859) clears the handle, which by then holds subprocess 1. The stops
  of the third start (181, 588) find the handle empty and signal nothing, so the third
  start creates subprocess 2 while subprocess 1 is alive and was never signalled: two
  subprocesses run, with a stop call between every two start calls.
\<close>

theorem stale_close_two_subprocesses:
  "ffmpegProcess (exec second_start init) = Some 1
   \<and> procs (exec second_start init) = [Terminating, Alive]
   \<and> ffmpegProcess (exec (second_start @ [ProcExit 0]) init) = None
   \<and> procs (exec (second_start @ [ProcExit 0]) init) = [Exited, Alive]
   \<and> procs (exec third_start init) = [Exited, Alive, Alive]
   \<and> alive (exec third_start init) = 2
   \<and> ffmpegProcess (exec third_start init) = Some 2
   \<and> sup_log (exec third_start init)
        = [SupStop, SupStart, SupStop, SupStart, SupStop, SupStart]"
  by code_simp


lemma handles_null_resume_waiter:
  "handles_null s \<Longrightarrow> handles_null (resume_waiter ok w s)"
  by (cases w) (simp_all add: handles_null_def stopConverter_resume_def)

lemma handles_null_fold_resume:
  "handles_null s \<Longrightarrow> handles_null (fold (\<lambda>w. resume_waiter ok (snd w)) ws s)"
  by (induction ws arbitrary: s) (simp_all add: handles_null_resume_waiter)

lemma handles_null_settle: "handles_null s \<Longrightarrow> handles_null (settle P ok s)"
  unfolding settle_def Let_def
  by (rule handles_null_fold_resume) (simp add: handles_null_def)

lemma handles_null_stopHlsConverter: "handles_null (stopHlsConverter s)"
  by (simp add: handles_null_def)

text \<open>
  C10. After stopHlsConverter all five handles (the subprocess, both plain transports, both
  consumers) are null. And whenever a step of an in-flight start throws, at whichever
  await, the five handles are null in the state in which it throws, and still null when
  the manager has handled the rejection: a failed start leaves nothing registered.
\<close>

theorem failed_start_leaves_nothing_registered:
  assumes "find (\<lambda>t. promise t = P) (starts (exec evs init)) = Some t"
      and "start_step t out (exec evs init) = Threw s'"
  shows "handles_null (stopHlsConverter s0) \<and> handles_null s'
         \<and> handles_null (step (StartStep P out) (exec evs init))"
proof -
  from inv_single [OF inv_reachable assms(1)] have "task_ok t (exec evs init)" by simp
  with start_step_Threw [OF assms(2)] have h: "handles_null s'" by simp
  then have "handles_null (settle P False s')" by (rule handles_null_settle)
  with h assms show ?thesis by (simp add: startStep_def handles_null_stopHlsConverter)
qed

theorem failed_start_leaves_nothing_registered_witness:
  "find (\<lambda>t. promise t = 2) (starts (exec consumers_pending init)) = Some audio_consumer_task
   \<and> start_step audio_consumer_task Thrown (exec consumers_pending init) = Threw state_at_throw
   \<and> hlsTransports_video (exec consumers_pending init) = Some 3
   \<and> handles_null (stopHlsConverter (exec consumers_pending init))
   \<and> handles_null state_at_throw
   \<and> handles_null (step (StartStep 2 Thrown) (exec consumers_pending init))"
proof -
  have f: "find (\<lambda>t. promise t = 2) (starts (exec consumers_pending init))
             = Some audio_consumer_task"
    by code_simp
  have t: "start_step audio_consumer_task Thrown (exec consumers_pending init)
             = Threw state_at_throw"
    by code_simp
  have v: "hlsTransports_video (exec consumers_pending init) = Some 3" by code_simp
  from failed_start_leaves_nothing_registered [OF f t] f t v show ?thesis by simp
qed

text \<open>
  With no start in flight, stopConverter on a state between events returns at line 189:
  it makes no call into the converter module and changes nothing.
\<close>

lemma stop_without_start_in_flight:
  "starts (exec evs init) = [] \<Longrightarrow> step Stop (exec evs init) = exec evs init"
  using inv_reachable [of evs] by (auto simp: inv_def stopConverter_def)

text \<open>
  C5 fails on the code while a start is in flight. The first stopConverter passes the guard
  of line 188, because converterStartPromise is set, and waits at line 204. A second call
  made before the start has settled finds the promise still set, passes the guard too and
  waits as well. When the start has settled both resume, and each calls stopHlsConverter
  at line 212: two calls of the manager into the converter module after the start, where
  a single stopConverter makes one.
\<close>

theorem stop_twice_during_start_stops_twice:
  "converterStartPromise (exec start_in_flight init) = Some 2
   \<and> waiters (exec (start_in_flight @ [Stop]) init) = [(2, Stopping ThenNothing)]
   \<and> waiters (exec (start_in_flight @ [Stop, Stop]) init)
        = [(2, Stopping ThenNothing), (2, Stopping ThenNothing)]
   \<and> sup_log (exec stop_once_during_start init) = [SupStop, SupStart, SupStop]
   \<and> sup_log (exec stop_twice_during_start init) = [SupStop, SupStart, SupStop, SupStop]"
  by code_simp

lemma exec_append: "exec (xs @ ys) s = exec ys (exec xs s)"
  by (induction xs arbitrary: s) simp_all

lemma stopConverter_idle:
  "\<not> isConverterRunning s \<Longrightarrow> converterStartPromise s = None
   \<Longrightarrow> stopConverter k s = run_after_stop k s"
  by (simp add: stopConverter_def)

lemma parked_cong:
  assumes "audioProducer s' = audioProducer s" "isConverterRunning s' = isConverterRunning s"
      and "converterStartPromise s' = converterStartPromise s" "starts s' = starts s"
      and "waiters s' = waiters s"
  shows "parked s' = parked s"
  using assms by (simp add: parked_def)

lemma audioProducer_after_stop:
  "k \<noteq> ThenSetProducer Audio p \<Longrightarrow> (\<And>q. k \<noteq> ThenSetProducer Audio q)
   \<Longrightarrow> audioProducer (run_after_stop k s) = audioProducer s"
  by (cases k; cases "case k of ThenSetProducer kd q \<Rightarrow> kd | _ \<Rightarrow> Video")
     (auto simp: setProducer_finish_def Let_def)

lemma parked_stopConverter:
  assumes "parked s" and "\<And>q. k \<noteq> ThenSetProducer Audio q"
  shows "parked (stopConverter k s) \<and> sup_log (stopConverter k s) = sup_log s"
proof -
  from assms(1) have e: "stopConverter k s = run_after_stop k s"
    by (simp add: parked_def stopConverter_idle)
  have "parked (run_after_stop k s) = parked s"
    by (rule parked_cong) (simp_all add: audioProducer_after_stop [OF assms(2) assms(2)])
  with assms(1) e show ?thesis by simp
qed

lemma parked_on_transportclose:
  assumes "parked s"
  shows "parked (on_transportclose k p s)
         \<and> sup_log (on_transportclose k p s) = sup_log s"
proof -
  let ?s1 = "if k = Video \<and> videoProducer s = Some p then s\<lparr>videoProducer := None\<rparr>
             else if k = Audio \<and> audioProducer s = Some p then s\<lparr>audioProducer := None\<rparr>
             else s"
  have p1: "parked ?s1" "sup_log ?s1 = sup_log s" using assms by (auto simp: parked_def)
  from parked_stopConverter [OF p1(1), of ThenNothing] p1
  show ?thesis by (simp add: on_transportclose_def Let_def)
qed

lemma parked_funpow:
  "parked s \<Longrightarrow> parked (((on_transportclose k p) ^^ n) s)
     \<and> sup_log (((on_transportclose k p) ^^ n) s) = sup_log s"
  by (induction n) (simp_all add: parked_on_transportclose)

lemma parked_tryStartConverter:
  "parked s \<Longrightarrow> parked (tryStartConverter c s) \<and> sup_log (tryStartConverter c s) = sup_log s"
  by (simp add: parked_def tryStartConverter_def Let_def)

lemma parked_step:
  assumes "parked s" and "\<not> sets_audio e"
  shows "parked (step e s) \<and> sup_log (step e s) = sup_log s"
proof (cases e)
  case (SetProducer k p)
  with assms(2) have k: "k = Video" by (cases k) simp_all
  let ?s1 = "clearRestartTimeout s"
  have p1: "parked ?s1" using assms(1) by (simp add: parked_cong [of ?s1 s])
  have f: "parked (setProducer_finish Video p ?s1)"
    using p1 by (simp add: parked_def setProducer_finish_def Let_def)
  from parked_stopConverter [OF p1, of "ThenSetProducer Video p"] f
  show ?thesis unfolding SetProducer k by (simp add: setProducer_def Let_def split: option.splits)
next
  case (TransportClose k p)
  let ?s0 = "s\<lparr>listeners := removeAll (k, p) (listeners s)\<rparr>"
  have "parked ?s0" using assms(1) by (simp add: parked_def)
  from parked_funpow [OF this] show ?thesis unfolding TransportClose
    by (simp add: transportClose_def)
next
  case (DebounceFire t)
  let ?s0 = "s\<lparr>timers := removeAll t (timers s)\<rparr>"
  have "parked ?s0" using assms(1) by (simp add: parked_def)
  from parked_tryStartConverter [OF this] assms(1) show ?thesis
    unfolding DebounceFire by simp
next
  case Restart
  from parked_stopConverter [OF assms(1), of ThenRestartDelay] show ?thesis
    unfolding Restart by (simp add: restartConverter_def)
next
  case (RestartDelayFire d)
  let ?s0 = "s\<lparr>restart_delays := removeAll d (restart_delays s)\<rparr>"
  have "parked ?s0" using assms(1) by (simp add: parked_def)
  from parked_tryStartConverter [OF this] assms(1) show ?thesis
    unfolding RestartDelayFire by simp
next
  case Reset
  let ?s0 = "s\<lparr>videoProducer := None, audioProducer := None\<rparr>"
  have "parked ?s0" using assms(1) by (simp add: parked_def)
  from parked_stopConverter [OF this, of ThenNothing] show ?thesis
    unfolding Reset by (simp add: reset_def)
next
  case Stop
  from parked_stopConverter [OF assms(1), of ThenNothing] show ?thesis
    unfolding Stop by simp
next
  case (StartStep P out)
  with assms(1) show ?thesis by (simp add: parked_def startStep_def)
next
  case (ProcExit p)
  with assms(1) show ?thesis by (simp add: parked_def)
qed

lemma parked_exec:
  "parked s \<Longrightarrow> list_all (\<lambda>e. \<not> sets_audio e) evs
   \<Longrightarrow> parked (exec evs s) \<and> sup_log (exec evs s) = sup_log s"
proof (induction evs arbitrary: s)
  case Nil
  then show ?case by simp
next
  case (Cons e evs)
  from parked_step [of s e] Cons.prems
  have "parked (step e s)" "sup_log (step e s) = sup_log s" by simp_all
  with Cons.IH [of "step e s"] Cons.prems show ?case by simp
qed

lemma funpow_fixed: "f (f x) = f x \<Longrightarrow> 0 < n \<Longrightarrow> (f ^^ n) x = f x"
proof (induction n)
  case 0
  then show ?case by simp
next
  case (Suc n)
  then show ?case by (cases n) simp_all
qed

lemma audio_close_state:
  assumes "videoProducer s = Some v" and "audioProducer s = Some a"
      and "(Audio, a) \<in> set (listeners s)"
  shows "step (TransportClose Audio a) s
           = s\<lparr>listeners := removeAll (Audio, a) (listeners s), audioProducer := None\<rparr>"
proof -
  let ?s0 = "s\<lparr>listeners := removeAll (Audio, a) (listeners s)\<rparr>"
  have one: "on_transportclose Audio a ?s0 = ?s0\<lparr>audioProducer := None\<rparr>"
    using assms by (simp add: on_transportclose_def Let_def)
  have two: "on_transportclose Audio a (?s0\<lparr>audioProducer := None\<rparr>) = ?s0\<lparr>audioProducer := None\<rparr>"
    using assms by (simp add: on_transportclose_def Let_def)
  have pos: "0 < count_list (listeners s) (Audio, a)"
    using assms(3) count_list_0_iff [of "listeners s" "(Audio, a)"] by simp
  have "((on_transportclose Audio a) ^^ (count_list (listeners s) (Audio, a))) ?s0
          = on_transportclose Audio a ?s0"
    by (rule funpow_fixed) (simp_all add: one two pos)
  then show ?thesis by (simp add: transportClose_def one)
qed

text \<open>
  C3, as stated, fails: with the converter running on producers 1 and 2, the close of the
  audio producer clears the audio slot, but no stop is called and subprocess 0 stays alive.
\<close>

theorem audio_close_does_not_stop:
  "ffmpegProcess (exec converter_running init) = Some 0
   \<and> videoProducer (exec converter_running init) = Some 1
   \<and> audioProducer (exec converter_running init) = Some 2
   \<and> audioProducer (exec (converter_running @ [TransportClose Audio 2]) init) = None
   \<and> ffmpegProcess (exec (converter_running @ [TransportClose Audio 2]) init) = Some 0
   \<and> procs (exec (converter_running @ [TransportClose Audio 2]) init) = [Alive]
   \<and> sup_log (exec (converter_running @ [TransportClose Audio 2]) init) = [SupStop, SupStart]"
  by code_simp

text \<open>
  C3, amended. When the audio producer closes while no start is in flight and the video
  producer is still tracked, the manager clears the audio slot and does not stop the
  subprocess: the handle and the subprocesses are as before, and the video producer is
  still tracked. From then on, whatever happens short of a setProducer for audio, the
  audio slot stays empty, no start is in flight, and startRtpToHlsConverter is not
  invoked: a tryStartConverter invoked by a timer or a restart returns at line 125.
\<close>

theorem audio_close_keeps_subprocess:
  assumes "s = exec evs0 init" and "starts s = []"
      and "videoProducer s = Some v" and "audioProducer s = Some a"
      and "(Audio, a) \<in> set (listeners s)"
      and "list_all (\<lambda>e. \<not> sets_audio e) evs"
  shows "step (TransportClose Audio a) s
           = s\<lparr>listeners := removeAll (Audio, a) (listeners s), audioProducer := None\<rparr>
       \<and> ffmpegProcess (step (TransportClose Audio a) s) = ffmpegProcess s
       \<and> procs (step (TransportClose Audio a) s) = procs s
       \<and> videoProducer (step (TransportClose Audio a) s) = Some v
       \<and> audioProducer (exec evs (step (TransportClose Audio a) s)) = None
       \<and> starts (exec evs (step (TransportClose Audio a) s)) = []
       \<and> count_list (sup_log (exec evs (step (TransportClose Audio a) s))) SupStart
           = count_list (sup_log s) SupStart"
proof -
  note st = audio_close_state [OF assms(3,4,5)]
  from inv_reachable [of evs0] assms(1,2)
  have "\<not> isConverterRunning s" "converterStartPromise s = None" "waiters s = []"
    by (simp_all add: inv_def)
  with assms(2) have "parked (step (TransportClose Audio a) s)"
    unfolding st by (simp add: parked_def)
  from parked_exec [OF this assms(6)]
  have "audioProducer (exec evs (step (TransportClose Audio a) s)) = None"
       "starts (exec evs (step (TransportClose Audio a) s)) = []"
       "sup_log (exec evs (step (TransportClose Audio a) s))
          = sup_log (step (TransportClose Audio a) s)"
    by (simp_all add: parked_def)
  moreover have "sup_log (step (TransportClose Audio a) s) = sup_log s"
       "ffmpegProcess (step (TransportClose Audio a) s) = ffmpegProcess s"
       "procs (step (TransportClose Audio a) s) = procs s"
       "videoProducer (step (TransportClose Audio a) s) = Some v"
    unfolding st using assms(3) by simp_all
  ultimately show ?thesis using st by simp
qed

theorem audio_close_keeps_subprocess_witness:
  "starts (exec converter_running init) = []
   \<and> videoProducer (exec converter_running init) = Some 1
   \<and> audioProducer (exec converter_running init) = Some 2
   \<and> (Audio, 2) \<in> set (listeners (exec converter_running init))
   \<and> list_all (\<lambda>e. \<not> sets_audio e) after_audio_close
   \<and> ffmpegProcess (step (TransportClose Audio 2) (exec converter_running init)) = Some 0
   \<and> procs (step (TransportClose Audio 2) (exec converter_running init)) = [Alive]
   \<and> videoProducer (step (TransportClose Audio 2) (exec converter_running init)) = Some 1
   \<and> audioProducer (exec after_audio_close
         (step (TransportClose Audio 2) (exec converter_running init))) = None
   \<and> starts (exec after_audio_close
         (step (TransportClose Audio 2) (exec converter_running init))) = []
   \<and> count_list (sup_log (exec after_audio_close
         (step (TransportClose Audio 2) (exec converter_running init)))) SupStart = 1
   \<and> tryStart_calls (exec after_audio_close
         (step (TransportClose Audio 2) (exec converter_running init))) = 3"
proof -
  have a: "starts (exec converter_running init) = []" by code_simp
  have b: "videoProducer (exec converter_running init) = Some 1" by code_simp
  have c: "audioProducer (exec converter_running init) = Some 2" by code_simp
  have d: "(Audio, 2) \<in> set (listeners (exec converter_running init))" by code_simp
  have e: "list_all (\<lambda>e. \<not> sets_audio e) after_audio_close"
    by (simp add: after_audio_close_def)
  have f: "tryStart_calls (exec after_audio_close
             (step (TransportClose Audio 2) (exec converter_running init))) = 3"
    by code_simp
  have g: "ffmpegProcess (exec converter_running init) = Some 0" by code_simp
  have h: "procs (exec converter_running init) = [Alive]" by code_simp
  have i: "count_list (sup_log (exec converter_running init)) SupStart = 1" by code_simp
  from audio_close_keeps_subprocess [OF refl a b c d e] a b c d e f g h i
  show ?thesis by metis
qed

text \<open>
  C4, as stated, fails: stopHlsConverter returns while subprocess 0 has been signalled but
  has not exited, and the next start creates subprocess 1 without any exit of
  subprocess 0 having been observed.
\<close>

theorem stop_returns_before_exit:
  "ffmpegProcess (exec converter_running init) = Some 0
   \<and> procs (exec converter_running init) = [Alive]
   \<and> procs (stopHlsConverter (exec converter_running init)) = [Terminating]
   \<and> procs (exec second_start init) = [Terminating, Alive]"
  by code_simp

text \<open>
  C4, amended. stopHlsConverter sends the termination signal to the subprocess in the
  handle and clears the handle, without waiting for the exit. A subprocess is created only
  at the end of a start that has first run stopHlsConverter, and at that moment the handle
  is empty.
\<close>

theorem stop_signals_and_spawn_finds_handle_empty:
  "(ffmpegProcess s = Some p \<and> p < length (procs s) \<and> procs s ! p = Alive \<longrightarrow>
      ffmpegProcess (stopHlsConverter s) = None
      \<and> procs (stopHlsConverter s) = (procs s)[p := Terminating])
   \<and> (find (\<lambda>t. promise t = P) (starts (exec evs init)) = Some t
        \<and> start_step t out (exec evs init) = Returned s' \<longrightarrow>
          ffmpegProcess (exec evs init) = None
          \<and> ffmpegProcess s' = Some (length (procs (exec evs init)))
          \<and> procs s' = procs (exec evs init) @ [Alive])"
proof -
  have one: "ffmpegProcess s = Some p \<and> p < length (procs s) \<and> procs s ! p = Alive \<longrightarrow>
      ffmpegProcess (stopHlsConverter s) = None
      \<and> procs (stopHlsConverter s) = (procs s)[p := Terminating]"
    by (simp add: stopHlsConverter_def kill_def Let_def split: option.splits)
  have two: "ffmpegProcess (exec evs init) = None
          \<and> ffmpegProcess s' = Some (length (procs (exec evs init)))
          \<and> procs s' = procs (exec evs init) @ [Alive]"
    if f: "find (\<lambda>t. promise t = P) (starts (exec evs init)) = Some t"
      and r: "start_step t out (exec evs init) = Returned s'"
  proof -
    from inv_single [OF inv_reachable f] have ok: "task_ok t (exec evs init)" by simp
    from r have pc: "pc t = AudioConsumerPending"
      by (cases "pc t"; cases out)
         (auto simp: start_step_def Let_def catch_cleanup_def split: if_splits option.splits)
    with ok have n: "ffmpegProcess (exec evs init) = None" by (simp add: task_ok_def)
    from r pc have "s' = runFfmpeg (fresh ((exec evs init)
        \<lparr>hlsConsumers_video := local_videoConsumer t,
         hlsConsumers_audio := Some (next_id (exec evs init))\<rparr>))"
      by (cases out) (auto simp: start_step_def catch_cleanup_def)
    with n show ?thesis by simp
  qed
  from one two show ?thesis by blast
qed

theorem stop_signals_and_spawn_finds_handle_empty_witness:
  "ffmpegProcess (exec converter_running init) = Some 0
   \<and> 0 < length (procs (exec converter_running init))
   \<and> procs (exec converter_running init) ! 0 = Alive
   \<and> ffmpegProcess (stopHlsConverter (exec converter_running init)) = None
   \<and> procs (stopHlsConverter (exec converter_running init))
       = (procs (exec converter_running init))[0 := Terminating]
   \<and> find (\<lambda>t. promise t = 2) (starts (exec consumers_pending init)) = Some audio_consumer_task
   \<and> start_step audio_consumer_task Resolved (exec consumers_pending init)
       = Returned (runFfmpeg (fresh ((exec consumers_pending init)
           \<lparr>hlsConsumers_video := Some 5, hlsConsumers_audio := Some 6\<rparr>)))
   \<and> ffmpegProcess (exec consumers_pending init) = None
   \<and> ffmpegProcess (runFfmpeg (fresh ((exec consumers_pending init)
           \<lparr>hlsConsumers_video := Some 5, hlsConsumers_audio := Some 6\<rparr>)))
       = Some (length (procs (exec consumers_pending init)))"
proof -
  have a: "ffmpegProcess (exec converter_running init) = Some 0
           \<and> 0 < length (procs (exec converter_running init))
           \<and> procs (exec converter_running init) ! 0 = Alive"
    by code_simp
  have f: "find (\<lambda>t. promise t = 2) (starts (exec consumers_pending init))
             = Some audio_consumer_task"
    by code_simp
  have r: "start_step audio_consumer_task Resolved (exec consumers_pending init)
       = Returned (runFfmpeg (fresh ((exec consumers_pending init)
           \<lparr>hlsConsumers_video := Some 5, hlsConsumers_audio := Some 6\<rparr>)))"
    by code_simp
  from stop_signals_and_spawn_finds_handle_empty
         [of "exec converter_running init" 0 2 consumers_pending audio_consumer_task Resolved
             "runFfmpeg (fresh ((exec consumers_pending init)
                \<lparr>hlsConsumers_video := Some 5, hlsConsumers_audio := Some 6\<rparr>))"]
       a f r
  show ?thesis by simp
qed

lemma setProducer_idle:
  assumes "\<not> isConverterRunning s" and "converterStartPromise s = None"
  shows "setProducer k p s = setProducer_finish k p (clearRestartTimeout s)"
  using assms by (simp add: setProducer_def Let_def stopConverter_idle split: option.splits)

lemma setProducer_finish_timer:
  "restartTimeout (setProducer_finish k p s) = Some (next_id s)"
  "timers (setProducer_finish k p s) = timers s @ [next_id s]"
  "next_id (setProducer_finish k p s) = Suc (next_id s)"
  by (cases k; simp add: setProducer_finish_def Let_def fresh_def)+

lemma clearRestartTimeout_timers:
  "timers (clearRestartTimeout s)
     = (case restartTimeout s of None \<Rightarrow> timers s | Some t \<Rightarrow> removeAll t (timers s))"
  by (simp add: clearRestartTimeout_def split: option.splits)

text \<open>
  Debouncing when no start is in flight: the second of two setProducer calls cancels the
  timer of the first and arms its own, so that one timer is left of the two.
\<close>

lemma setProducer_pair_one_timer:
  assumes "\<not> isConverterRunning s" and "converterStartPromise s = None"
  shows "restartTimeout (setProducer Video a s) = Some (next_id s)
       \<and> next_id s \<in> set (timers (setProducer Video a s))
       \<and> restartTimeout (setProducer Audio b (setProducer Video a s)) = Some (Suc (next_id s))
       \<and> timers (setProducer Audio b (setProducer Video a s))
           = removeAll (next_id s) (timers (setProducer Video a s)) @ [Suc (next_id s)]"
proof -
  have 1: "setProducer Video a s = setProducer_finish Video a (clearRestartTimeout s)"
    using assms by (rule setProducer_idle)
  have 2: "setProducer Audio b (setProducer Video a s)
             = setProducer_finish Audio b (clearRestartTimeout (setProducer Video a s))"
    by (rule setProducer_idle) (simp_all add: 1 assms)
  have r1: "restartTimeout (setProducer Video a s) = Some (next_id s)"
    and n1: "next_id (setProducer Video a s) = Suc (next_id s)"
    and t1: "next_id s \<in> set (timers (setProducer Video a s))"
    unfolding 1 by (simp_all add: setProducer_finish_timer)
  have r2: "restartTimeout (setProducer Audio b (setProducer Video a s)) = Some (Suc (next_id s))"
    unfolding 2 by (simp add: setProducer_finish_timer n1)
  have t2: "timers (setProducer Audio b (setProducer Video a s))
           = removeAll (next_id s) (timers (setProducer Video a s)) @ [Suc (next_id s)]"
    unfolding 2 by (simp add: setProducer_finish_timer clearRestartTimeout_timers r1 n1)
  from r1 t1 r2 t2 show ?thesis by blast
qed

text \<open>
  C6 at the failing input. Both calls arrive while a start is in flight. Each cancels the
  timer of the field on entry (none is pending then), suspends in stopConverter, and on
  resumption arms a timer without cancelling the other's: timers 7 and 8 are both pending,
  and both fire, which makes two tryStartConverter invocations for the two calls.
\<close>

theorem overlapped_setProducer_two_timers:
  "timers (exec start_in_flight init) = []
   \<and> timers (exec overlapped_calls init) = [7, 8]
   \<and> restartTimeout (exec overlapped_calls init) = Some 8
   \<and> tryStart_calls (exec overlapped_calls init) = 1
   \<and> tryStart_calls (exec (overlapped_calls @ [DebounceFire 7, DebounceFire 8]) init) = 3"
  by code_simp

lemma producers_kept_run_after_stop:
  "(videoProducer s \<noteq> None \<longrightarrow> videoProducer (run_after_stop k s) \<noteq> None)
   \<and> (audioProducer s \<noteq> None \<longrightarrow> audioProducer (run_after_stop k s) \<noteq> None)"
  by (cases k; cases "case k of ThenSetProducer kd q \<Rightarrow> kd | _ \<Rightarrow> Video")
     (auto simp: setProducer_finish_def Let_def)

lemma settled_like_resume:
  assumes "w \<noteq> Joined ByTimer"
  shows "settled_like s (resume_waiter False w s)"
proof (cases w)
  case (Stopping k)
  from producers_kept_run_after_stop
         [of "stop_supervisor (s\<lparr>converterStartPromise := None\<rparr>)" k]
  show ?thesis unfolding Stopping by (simp add: settled_like_def stopConverter_resume_def)
next
  case (Joined c)
  with assms have "c = ByRestart" by (cases c) simp_all
  with Joined show ?thesis by (simp add: settled_like_def)
qed

lemma settled_like_trans: "settled_like a b \<Longrightarrow> settled_like b c \<Longrightarrow> settled_like a c"
  by (simp add: settled_like_def)

lemma settled_like_fold:
  "list_all (\<lambda>w. snd w \<noteq> Joined ByTimer) ws
   \<Longrightarrow> settled_like s (fold (\<lambda>w. resume_waiter False (snd w)) ws s)"
proof (induction ws arbitrary: s)
  case Nil
  then show ?case by (simp add: settled_like_def)
next
  case (Cons w ws)
  from Cons.prems have w: "snd w \<noteq> Joined ByTimer"
    and ws: "list_all (\<lambda>w. snd w \<noteq> Joined ByTimer) ws" by simp_all
  have a: "settled_like s (resume_waiter False (snd w) s)"
    using w by (rule settled_like_resume)
  have b: "settled_like (resume_waiter False (snd w) s)
             (fold (\<lambda>w. resume_waiter False (snd w)) ws (resume_waiter False (snd w) s))"
    using ws by (rule Cons.IH)
  from settled_like_trans [OF a b] show ?case by simp
qed

text \<open>
  A start failure is contained when no timer-invoked tryStartConverter has joined the
  start: the manager ends not running, with no start in flight, no producer slot cleared
  and no rejection unhandled.
\<close>

lemma start_failure_caught:
  assumes f: "find (\<lambda>t. promise t = P) (starts (exec evs init)) = Some t"
      and r: "start_step t out (exec evs init) = Threw s'"
      and j: "list_all (\<lambda>w. snd w \<noteq> Joined ByTimer) (waiters (exec evs init))"
  shows "\<not> gs_isConverterRunning (getState (step (StartStep P out) (exec evs init)))
       \<and> starts (step (StartStep P out) (exec evs init)) = []
       \<and> settled_like (exec evs init) (step (StartStep P out) (exec evs init))"
proof -
  let ?s = "exec evs init"
  let ?s4 = "s'\<lparr>starts := filter (\<lambda>t. promise t \<noteq> P) (starts s'),
                 isConverterRunning := False, converterStartPromise := None,
                 waiters := filter (\<lambda>w. fst w \<noteq> P) (waiters s')\<rparr>"
  let ?ws = "filter (\<lambda>w. fst w = P) (waiters s')"
  have st: "step (StartStep P out) ?s = settle P False s'"
    using f r by (simp add: startStep_def)
  from start_step_Threw [OF r] have fr: "frame ?s s'" and lg: "sup_log s' = sup_log ?s"
    by simp_all
  have "inv (step (StartStep P out) ?s)"
    using inv_reachable [of "evs @ [StartStep P out]"] by (simp add: exec_append)
  then have nr: "\<not> isConverterRunning (step (StartStep P out) ?s)" by (simp add: inv_def)
  from inv_single [OF inv_reachable f] fr lg inv_reachable [of evs]
  have "starts (settle P False s') = []"
    by (intro conjunct2 [OF inv_settle [where t = t]]) (simp_all add: frame_def inv_def)
  then have em: "starts (step (StartStep P out) ?s) = []" using st by simp
  have e: "settle P False s' = fold (\<lambda>w. resume_waiter False (snd w)) ?ws ?s4"
    by (simp add: settle_def Let_def)
  have a: "settled_like ?s ?s4" using fr by (simp add: settled_like_def frame_def)
  have "list_all (\<lambda>w. snd w \<noteq> Joined ByTimer) ?ws"
    using j fr by (simp add: frame_def list_all_iff)
  from settled_like_trans [OF a settled_like_fold [OF this]]
  have "settled_like ?s (settle P False s')" by (simp add: e)
  with nr em st show ?thesis by (simp add: getState_def)
qed

text \<open>
  C7 at the failing input. A tryStartConverter invoked by a debounce timer while the start
  is in flight returns the start promise itself (line 137). When the start fails, the
  rejection is caught for the invocation that began the start, but it also rejects the
  promise of the joined invocation, which the timer callback discards: one unhandled
  rejection, which Node by default raises as an uncaught exception of the process.
\<close>

theorem joined_start_rejection_unhandled:
  "waiters (exec (start_in_flight @ [TransportClose Video 1, SetProducer Video 3, DebounceFire 3])
              init) = [(2, Joined ByTimer)]
   \<and> unhandled_rejections (exec joined_start_fails init) = 1
   \<and> \<not> gs_isConverterRunning (getState (exec joined_start_fails init))
   \<and> videoProducer (exec joined_start_fails init) = Some 3
   \<and> audioProducer (exec joined_start_fails init) = Some 2"
  by code_simp

text \<open>
  The createSdpString of WatchPage.tsx does what C9 says: a track has an fmtp line exactly
  when its codec declares a format parameter, and the audio rtpmap line ends in 2 when the
  channel count is absent.
\<close>

lemma createSdpString_fmtp_iff_params:
  assumes "index_opt (codecs vConsumer) 0 = Some vc"
      and "index_opt (codecs aConsumer) 0 = Some ac"
  shows "let ls = sdpLines (localPort (tuple vT)) vc (localPort (tuple aT)) ac in
         createSdpString vT aT vConsumer aConsumer = Inr (join crlf ls @ crlf)
       \<and> ((\<exists>l \<in> set (video_section ls). is_fmtp l) \<longleftrightarrow> declares_params vc)
       \<and> ((\<exists>l \<in> set (audio_section ls). is_fmtp l) \<longleftrightarrow> declares_params ac)
       \<and> (channels ac = None \<longrightarrow>
            (''a=rtpmap:'' @ show_nat (payloadType ac) @ '' '' @ codec_name ac @ ''/''
               @ show_nat (clockRate ac) @ ''/2'') \<in> set (audio_section ls))"
  unfolding Let_def video_section_sdpLines audio_section_sdpLines fmtp_in_video fmtp_in_audio
  using assms by (auto simp: createSdpString_def audio_lines_def channels_default)

text \<open>
  C9 at the failing input. The createSdpString of part\_002 writes an fmtp line for the
  VP8 codec, which declares no format parameter, and prints the absent channel count of
  the audio codec as \<open>undefined\<close>.
\<close>

theorem legacy_fmtp_without_params:
  "\<not> declares_params vp8 \<and> channels opus = None
   \<and> createSdpString_legacy (transport_at 3 5004) (transport_at 4 5006)
         (consumer_of 5 [vp8]) (consumer_of 6 [opus])
       = Inr ([CHR 0x0A] @ join [CHR 0x0A]
            [''v=0'', ''o=- 0 0 IN IP4 127.0.0.1'', ''s=Mediasoup Stream'',
             ''c=IN IP4 127.0.0.1'', ''t=0 0'', ''m=video undefined RTP/AVP 101'',
             ''a=rtpmap:101 VP8/90000'', ''a=fmtp:101 '', ''a=sendonly'',
             ''m=audio undefined RTP/AVP 100'', ''a=rtpmap:100 opus/48000/undefined'',
             ''a=fmtp:100 minptime=10;useinbandfec=1'', ''a=sendonly'']
            @ [CHR 0x0A] @ ''  '')"
proof -
  have "sdpLines_legacy None vp8 None opus =
       Inr [''v=0'', ''o=- 0 0 IN IP4 127.0.0.1'', ''s=Mediasoup Stream'',
            ''c=IN IP4 127.0.0.1'', ''t=0 0'', ''m=video undefined RTP/AVP 101'',
            ''a=rtpmap:101 VP8/90000'', ''a=fmtp:101 '', ''a=sendonly'',
            ''m=audio undefined RTP/AVP 100'', ''a=rtpmap:100 opus/48000/undefined'',
            ''a=fmtp:100 minptime=10;useinbandfec=1'', ''a=sendonly'']"
    by (simp add: vp8_def opus_def sdpLines_legacy_def formatParams_legacy_def
          session_header_def show_num_opt_def show_opt_def codec_name_def show_nat.simps
          digit_def)
  then show ?thesis
    by (simp add: createSdpString_legacy_def consumer_of_def tuple_port_def
          declares_params_def vp8_def opus_def)
qed

end
